theory Spec2Isabelle
  imports Complex_Main "HOL-Library.Multiset" "HOL-Library.Product_Lexorder"
    "HOL-Library.Log_Nat"
begin

section \<open>Data model\<close>

text \<open>
  The trainer keeps one JSON document per file: a progress document and a history document
  for each game kind, and one settings document. Python integers are modelled as \<open>int\<close>.
  A Python float is modelled by the real number it denotes. The arithmetic of the running
  average of the response times rounds every result to the nearest double (see the section
  on double-precision arithmetic). The display times computed by the parameter generators
  are kept unrounded: no statement below is about their values.
\<close>

datatype error =
    FileNotFoundError | JSONDecodeError | OSError | KeyError | TypeError
  | ValueError | ZeroDivisionError | IndexError | AttributeError

type_synonym path = string

text \<open>The third component returned by a game function: the answer the player submitted.\<close>

datatype answer = Digits "int list" | Cells "(int \<times> int) list" | Text string

text \<open>
  The per-game progress dictionary (\<open>default_progress\<close> in \<open>load_game_progress\<close>). The field
  \<open>extras\<close> lists the further keys some games keep in the same document
  (\<open>next_challenge\<close>, \<open>current_sequence\<close>, ...); the progress update never reads or writes
  them and their values are not modelled.
\<close>

record game_progress =
  level :: int
  upgrade :: int
  highest_level_reached :: int
  total_challenges :: int
  successful_challenges :: int
  current_streak :: int
  longest_streak :: int
  avg_response_time :: real
  extras :: "string list"

text \<open>The dictionary \<open>entry\<close> built by \<open>update_progress\<close>; \<open>entry_level\<close> is its key \<open>level\<close>.\<close>

record history_entry =
  timestamp :: string
  game :: string
  entry_level :: int
  success :: bool
  response_time :: real
  upgrade_progress :: int
  user_answer :: "answer option"

record digit_meta =
  backward_intro_level :: int
  interference_intro_level :: int
  selective_recall_intro_level :: int
  ordering_intro_level :: int
  base_display_time :: real
  display_time_reduction_per_level :: real
  base_delay_time :: real
  delay_time_reduction_per_level :: real
  min_digits_level_1 :: int
  max_additional_digits_per_level :: int

text \<open>
  The spatial section of the settings. The three keys read with \<open>meta.get(key, default)\<close>
  may be missing, so they are optional here.
\<close>

record spatial_meta =
  grid_size_base :: int
  grid_size_increase_every_n_levels :: "int option"
  max_grid_size :: int
  min_cells_level_1 :: int
  max_additional_cells_per_level :: int
  display_time_base :: real
  sp_display_time_reduction_per_level :: real
  multiple_highlights_intro_level :: "int option"
  sp_interference_intro_level :: "int option"

text \<open>
  The settings document: \<open>user_settings\<close> and the sections of \<open>game_meta_parameters\<close> that the
  two implemented games read. A missing section is \<open>None\<close> (the lookup raises KeyError).
\<close>

record settings =
  challenges_per_session :: int
  current_user :: string
  digit_span_section :: "digit_meta option"
  spatial_pattern_section :: "spatial_meta option"

datatype document =
    ProgressDoc game_progress
  | HistoryDoc "history_entry list"
  | SettingsDoc settings

section \<open>Document store (save\_load.py)\<close>

text \<open>
  A file either holds text that \<open>json.load\<close> decodes to a document, or text it rejects with
  \<open>JSONDecodeError\<close>. Opening a path in \<open>unreadable\<close> for reading, or a path in \<open>unwritable\<close> for
  writing (or creating its directory), raises \<open>OSError\<close> and leaves the store as it is. The
  store is keyed by the path below the root directory (\<open>get_absolute_path\<close> joins it to
  \<open>ROOT_DIR\<close>).
\<close>

datatype content = Valid document | Corrupt

record fs =
  files :: "path \<Rightarrow> content option"
  unreadable :: "path set"
  unwritable :: "path set"

text \<open>The block \<open>with open(abs_path, 'w') as f: json.dump(data, f, indent=2)\<close>.\<close>

definition write_json :: "fs \<Rightarrow> path \<Rightarrow> document \<Rightarrow> error + fs" where
  "write_json s p d =
     (if p \<in> unwritable s then Inl OSError
      else Inr (s\<lparr>files := (files s)(p \<mapsto> Valid d)\<rparr>))"

text \<open>
  \<open>load_json_file\<close>. The \<open>try\<close> body reads an existing file, or creates it from the default.
  A \<open>JSONDecodeError\<close> is handled by the first handler, which writes the default outside
  the \<open>try\<close> body: an error of that write propagates to the caller. Every other exception
  of the body reaches the last handler, which returns the default when there is one.
\<close>

definition load_json_file :: "fs \<Rightarrow> path \<Rightarrow> document option \<Rightarrow> (error + document) \<times> fs" where
  "load_json_file s p dflt =
     (case files s p of
        Some c \<Rightarrow>
          (if p \<in> unreadable s then
             (case dflt of Some d \<Rightarrow> (Inr d, s) | None \<Rightarrow> (Inl OSError, s))
           else
             (case c of
                Valid doc \<Rightarrow> (Inr doc, s)
              | Corrupt \<Rightarrow>
                  (case dflt of
                     Some d \<Rightarrow>
                       (case write_json s p d of
                          Inl e \<Rightarrow> (Inl e, s)
                        | Inr s' \<Rightarrow> (Inr d, s'))
                   | None \<Rightarrow> (Inl JSONDecodeError, s))))
      | None \<Rightarrow>
          (case dflt of
             Some d \<Rightarrow>
               (case write_json s p d of
                  Inl e \<Rightarrow> (Inr d, s)
                | Inr s' \<Rightarrow> (Inr d, s'))
           | None \<Rightarrow> (Inl FileNotFoundError, s)))"

text \<open>\<open>save_json_file\<close>: every exception of the write is caught and reported as \<open>False\<close>.\<close>

definition save_json_file :: "fs \<Rightarrow> path \<Rightarrow> document \<Rightarrow> bool \<times> fs" where
  "save_json_file s p d =
     (case write_json s p d of
        Inl e \<Rightarrow> (False, s)
      | Inr s' \<Rightarrow> (True, s'))"

definition get_game_progress_path :: "string \<Rightarrow> path" where
  "get_game_progress_path g = g @ ''/'' @ g @ ''.json''"

definition get_game_history_path :: "string \<Rightarrow> path" where
  "get_game_history_path g = g @ ''/'' @ g @ ''_history.json''"

definition default_progress :: "string \<Rightarrow> game_progress" where
  "default_progress g =
     \<lparr>level = 1, upgrade = 0, highest_level_reached = 1, total_challenges = 0,
      successful_challenges = 0, current_streak = 0, longest_streak = 0,
      avg_response_time = 0,
      extras = (if g = ''digit_span'' then [''next_challenge'', ''current_sequence''] else [])\<rparr>"

text \<open>The callers of this development never pass the optional \<open>default\<close> argument.\<close>

definition load_game_progress :: "fs \<Rightarrow> string \<Rightarrow> (error + document) \<times> fs" where
  "load_game_progress s g =
     load_json_file s (get_game_progress_path g) (Some (ProgressDoc (default_progress g)))"

definition save_game_progress :: "fs \<Rightarrow> string \<Rightarrow> game_progress \<Rightarrow> bool \<times> fs" where
  "save_game_progress s g p = save_json_file s (get_game_progress_path g) (ProgressDoc p)"

definition load_game_history :: "fs \<Rightarrow> string \<Rightarrow> (error + document) \<times> fs" where
  "load_game_history s g = load_json_file s (get_game_history_path g) (Some (HistoryDoc []))"

definition save_game_history :: "fs \<Rightarrow> string \<Rightarrow> history_entry list \<Rightarrow> bool \<times> fs" where
  "save_game_history s g h = save_json_file s (get_game_history_path g) (HistoryDoc h)"

text \<open>
  \<open>add_history_entry\<close>: \<open>history.append(entry)\<close> needs the loaded document to be a list; a
  dictionary has no \<open>append\<close>.
\<close>

definition add_history_entry :: "fs \<Rightarrow> string \<Rightarrow> history_entry \<Rightarrow> (error + bool) \<times> fs" where
  "add_history_entry s g entry =
     (case load_game_history s g of
        (Inl e, s1) \<Rightarrow> (Inl e, s1)
      | (Inr (HistoryDoc h), s1) \<Rightarrow>
          (case save_game_history s1 g (h @ [entry]) of (ok, s2) \<Rightarrow> (Inr ok, s2))
      | (Inr _, s1) \<Rightarrow> (Inl AttributeError, s1))"

section \<open>Double-precision arithmetic\<close>

text \<open>
  Python's \<open>float\<close> is the IEEE 754 binary64 format: every arithmetic operation returns the
  exact result rounded to the nearest number with a significand of 53 bits, a tie going to
  the even significand. \<open>round_double\<close> is this rounding, for an exponent that is not bounded:
  overflow to infinity (above about \<open>1.8e308\<close>) and gradual underflow (below about
  \<open>2.2e-308\<close>) are not modelled. \<open>exponent x\<close> is the integer \<open>e\<close> with \<open>2\<^sup>e \<le> x < 2\<^sup>e\<^sup>+\<^sup>1\<close>, for
  \<open>x > 0\<close>.
\<close>

definition pow2 :: "int \<Rightarrow> real" where
  "pow2 e = (if 0 \<le> e then 2 ^ nat e else 1 / 2 ^ nat (- e))"

definition round_half_even :: "real \<Rightarrow> int" where
  "round_half_even x =
     (let f = \<lfloor>x\<rfloor>; d = x - of_int f
      in if d < 1 / 2 then f else if 1 / 2 < d then f + 1
         else if even f then f else f + 1)"

definition exponent :: "real \<Rightarrow> int" where
  "exponent x = (if 1 \<le> x then bitlen \<lfloor>x\<rfloor> - 1 else - bitlen (\<lceil>1 / x\<rceil> - 1))"

definition round_double :: "real \<Rightarrow> real" where
  "round_double x =
     (if x = 0 then 0
      else (let e = exponent \<bar>x\<bar> - 52
            in sgn x * of_int (round_half_even (\<bar>x\<bar> / pow2 e)) * pow2 e))"

text \<open>
  The conversion of an integer operand and the three operations used by the running
  average. An operand that is a Python integer (the initial average \<open>0\<close>, the response time
  \<open>0\<close> of an aborted round) is treated as the float of the same value.
\<close>

definition float_of_int :: "int \<Rightarrow> real" where
  "float_of_int n = round_double (of_int n)"

definition fl_mul :: "real \<Rightarrow> real \<Rightarrow> real" where
  "fl_mul a b = round_double (a * b)"

definition fl_add :: "real \<Rightarrow> real \<Rightarrow> real" where
  "fl_add a b = round_double (a + b)"

definition fl_div :: "real \<Rightarrow> real \<Rightarrow> real" where
  "fl_div a b = round_double (a / b)"

section \<open>Progress state machine (game\_session.py)\<close>

text \<open>
  The body of \<open>update_progress\<close> between the load and the save, one definition for each of
  its commented blocks, in the order of the source.
\<close>

definition update_basic_stats :: "game_progress \<Rightarrow> bool \<Rightarrow> game_progress" where
  "update_basic_stats p succ =
     (let p1 = p\<lparr>total_challenges := total_challenges p + 1\<rparr>
      in if succ then
           p1\<lparr>successful_challenges := successful_challenges p1 + 1,
              current_streak := current_streak p1 + 1,
              upgrade := upgrade p1 + 1\<rparr>
         else p1\<lparr>current_streak := 0, upgrade := upgrade p1 - 1\<rparr>)"

definition update_longest_streak :: "game_progress \<Rightarrow> game_progress" where
  "update_longest_streak p =
     (if current_streak p > longest_streak p
      then p\<lparr>longest_streak := current_streak p\<rparr> else p)"

text \<open>
  The expression \<open>(old_avg * old_total + response_time) / total_challenges\<close>, each operation
  rounded. The division raises \<open>ZeroDivisionError\<close> when the incremented total is 0.
\<close>

definition update_response_time_average :: "game_progress \<Rightarrow> real \<Rightarrow> error + game_progress" where
  "update_response_time_average p rt =
     (let old_avg = avg_response_time p; old_total = total_challenges p - 1
      in if old_total = 0 then Inr (p\<lparr>avg_response_time := rt\<rparr>)
         else if total_challenges p = 0 then Inl ZeroDivisionError
         else Inr (p\<lparr>avg_response_time :=
                       fl_div (fl_add (fl_mul old_avg (float_of_int old_total)) rt)
                              (float_of_int (total_challenges p))\<rparr>))"

definition check_level_change :: "game_progress \<Rightarrow> game_progress" where
  "check_level_change p =
     (if upgrade p \<ge> 10 \<and> level p < 10 then
        (let p1 = p\<lparr>level := level p + 1, upgrade := 0\<rparr>
         in if level p1 > highest_level_reached p1
            then p1\<lparr>highest_level_reached := level p1\<rparr> else p1)
      else if upgrade p \<le> - 5 \<and> level p > 1 then
        p\<lparr>level := level p - 1, upgrade := 0\<rparr>
      else p)"

text \<open>Python's truth value of the submitted answer (\<open>if user_answer:\<close>).\<close>

fun truthy :: "answer option \<Rightarrow> bool" where
  "truthy None = False"
| "truthy (Some (Digits xs)) = (xs \<noteq> [])"
| "truthy (Some (Cells xs)) = (xs \<noteq> [])"
| "truthy (Some (Text t)) = (t \<noteq> [])"

text \<open>
  \<open>update_progress\<close>. The argument \<open>now\<close> is the formatted reading of the clock. Indexing a
  loaded document that is a list raises \<open>TypeError\<close>, one that lacks the keys \<open>KeyError\<close>.
  The result of the save is ignored, as in the source.
\<close>

definition update_progress ::
  "fs \<Rightarrow> string \<Rightarrow> bool \<Rightarrow> real \<Rightarrow> answer option \<Rightarrow> string \<Rightarrow> (error + int \<times> int) \<times> fs" where
  "update_progress s g succ rt ans now =
     (case load_game_progress s g of
        (Inl e, s1) \<Rightarrow> (Inl e, s1)
      | (Inr (ProgressDoc p0), s1) \<Rightarrow>
          (case update_response_time_average
                  (update_longest_streak (update_basic_stats p0 succ)) rt of
             Inl e \<Rightarrow> (Inl e, s1)
           | Inr p3 \<Rightarrow>
               (let level_before = level p3;
                    p4 = check_level_change p3;
                    s2 = snd (save_game_progress s1 g p4);
                    entry = \<lparr>timestamp = now, game = g, entry_level = level_before,
                             success = succ, response_time = rt,
                             upgrade_progress = upgrade p4,
                             user_answer = (if truthy ans then ans else None)\<rparr>
                in case add_history_entry s2 g entry of
                     (Inl e, s3) \<Rightarrow> (Inl e, s3)
                   | (Inr ok, s3) \<Rightarrow> (Inr (level p4, upgrade p4), s3)))
      | (Inr (HistoryDoc h), s1) \<Rightarrow> (Inl TypeError, s1)
      | (Inr (SettingsDoc st), s1) \<Rightarrow> (Inl KeyError, s1))"

text \<open>
  The invariants of a progress record as the specification states them, relative to the
  response times recorded so far for its game kind: the total counts these response times
  and the average is their mean, the mean of no response time being the initial value 0 of
  the record.
\<close>

definition mean :: "real list \<Rightarrow> real" where
  "mean ts = (if ts = [] then 0 else sum_list ts / real (length ts))"

definition progress_inv :: "game_progress \<Rightarrow> real list \<Rightarrow> bool" where
  "progress_inv p ts \<longleftrightarrow>
     1 \<le> level p \<and> level p \<le> 10 \<and>
     successful_challenges p \<le> total_challenges p \<and>
     level p \<le> highest_level_reached p \<and>
     total_challenges p = int (length ts) \<and>
     avg_response_time p = mean ts \<and>
     list_all (\<lambda>t. 0 \<le> t) ts"

text \<open>
  The same invariants with the equality of the average replaced by what rounding leaves of
  it: after \<open>n\<close> recorded challenges the average lies between the mean times
  \<open>(1 - 2\<^sup>-\<^sup>5\<^sup>3)\<^sup>5\<^sup>n\<close> and the mean times \<open>(1 + 2\<^sup>-\<^sup>5\<^sup>3)\<^sup>6\<^sup>n\<close>.
\<close>

definition unit_roundoff :: real where
  "unit_roundoff = 1 / 2 ^ 53"

definition progress_inv_rounded :: "game_progress \<Rightarrow> real list \<Rightarrow> bool" where
  "progress_inv_rounded p ts \<longleftrightarrow>
     1 \<le> level p \<and> level p \<le> 10 \<and>
     successful_challenges p \<le> total_challenges p \<and>
     level p \<le> highest_level_reached p \<and>
     total_challenges p = int (length ts) \<and>
     mean ts * ((1 - unit_roundoff) ^ 5) ^ length ts \<le> avg_response_time p \<and>
     avg_response_time p \<le> mean ts * ((1 + unit_roundoff) ^ 6) ^ length ts \<and>
     list_all (\<lambda>t. 0 \<le> t) ts"

text \<open>Both documents of a game can be read and written.\<close>

definition store_ok :: "fs \<Rightarrow> string \<Rightarrow> bool" where
  "store_ok s g \<longleftrightarrow>
     get_game_progress_path g \<notin> unreadable s \<and> get_game_progress_path g \<notin> unwritable s \<and>
     get_game_history_path g \<notin> unreadable s \<and> get_game_history_path g \<notin> unwritable s"

section \<open>Randomness\<close>

text \<open>
  The generator of Python's \<open>random\<close> module is modelled by the stream of natural numbers it
  will deliver; every call consumes the head of the stream. \<open>random.randint(a, b)\<close> returns a
  value of \<open>a..b\<close> and raises \<open>ValueError\<close> for an empty range; \<open>random.choice\<close> returns an
  element of a non-empty list. Every value these calls can return is returned for some stream.
\<close>

type_synonym rng = "nat \<Rightarrow> nat"

definition next_rng :: "rng \<Rightarrow> rng" where
  "next_rng r = (\<lambda>n. r (Suc n))"

definition randint_value :: "int \<Rightarrow> int \<Rightarrow> nat \<Rightarrow> int" where
  "randint_value a b x = a + int (x mod nat (b - a + 1))"

definition randint :: "int \<Rightarrow> int \<Rightarrow> rng \<Rightarrow> error + int \<times> rng" where
  "randint a b r =
     (if b < a then Inl ValueError else Inr (randint_value a b (r 0), next_rng r))"

definition choice :: "'a list \<Rightarrow> rng \<Rightarrow> error + 'a \<times> rng" where
  "choice xs r =
     (if xs = [] then Inl IndexError else Inr (xs ! (r 0 mod length xs), next_rng r))"

text \<open>\<open>random.choice([True, False])\<close>, which cannot fail.\<close>

definition coin :: "rng \<Rightarrow> bool \<times> rng" where
  "coin r = ([True, False] ! (r 0 mod 2), next_rng r)"

section \<open>Digit span (digit\_span/digit\_span.py)\<close>

text \<open>
  The functions of this module carry the prefix \<open>ds_\<close> where the spatial module has a
  function of the same name.
\<close>

record digit_config =
  sequence_length :: int
  display_time :: real
  inter_digit_delay :: real
  backward :: bool
  interference_task :: bool
  selective_recall :: bool
  ordering :: bool
  instruction :: string

definition SETTINGS_FILE :: path where
  "SETTINGS_FILE = ''utils/settings.json''"

definition builtin_digit_meta :: digit_meta where
  "builtin_digit_meta =
     \<lparr>backward_intro_level = 4, interference_intro_level = 7,
      selective_recall_intro_level = 8, ordering_intro_level = 9,
      base_display_time = 1, display_time_reduction_per_level = 1 / 10,
      base_delay_time = 1 / 2, delay_time_reduction_per_level = 1 / 20,
      min_digits_level_1 = 3, max_additional_digits_per_level = 1\<rparr>"

definition ds_load_settings :: "fs \<Rightarrow> (error + document) \<times> fs" where
  "ds_load_settings s =
     load_json_file s SETTINGS_FILE
       (Some (SettingsDoc \<lparr>challenges_per_session = 10, current_user = ''default'',
                            digit_span_section = Some builtin_digit_meta,
                            spatial_pattern_section = None\<rparr>))"

definition ds_get_instruction_text :: "digit_config \<Rightarrow> string" where
  "ds_get_instruction_text config =
     (let i0 = ''Remember the sequence'';
          i1 = (if backward config then i0 @ '' and repeat it BACKWARD''
                else if selective_recall config then i0 @ '' but only repeat ODD digits''
                else if ordering config then i0 @ '' and repeat it in ASCENDING order''
                else i0)
      in if interference_task config then i1 @ '' (with math problem)'' else i1)"

text \<open>
  The body of \<open>generate_next_challenge_config\<close> once the meta-parameters are known. Each
  flag is drawn only when its introduction level is reached, in the order of the source.
\<close>

definition ds_config_from_meta :: "digit_meta \<Rightarrow> int \<Rightarrow> rng \<Rightarrow> digit_config \<times> rng" where
  "ds_config_from_meta meta lvl r =
     (let c0 = \<lparr>sequence_length = 0, display_time = 0, inter_digit_delay = 0,
                backward = False, interference_task = False, selective_recall = False,
                ordering = False, instruction = []\<rparr>;
          c1 = c0\<lparr>sequence_length :=
                    min_digits_level_1 meta + (lvl - 1) * max_additional_digits_per_level meta\<rparr>;
          c2 = c1\<lparr>display_time :=
                    max (3 / 10) (base_display_time meta
                                   - of_int (lvl - 1) * display_time_reduction_per_level meta)\<rparr>;
          c3 = c2\<lparr>inter_digit_delay :=
                    max (1 / 10) (base_delay_time meta
                                   - of_int (lvl - 1) * delay_time_reduction_per_level meta)\<rparr>;
          (c4, r4) = (if lvl \<ge> backward_intro_level meta
                      then (let (b, r') = coin r in (c3\<lparr>backward := b\<rparr>, r'))
                      else (c3, r));
          (c5, r5) = (if lvl \<ge> interference_intro_level meta
                      then (let (b, r') = coin r4 in (c4\<lparr>interference_task := b\<rparr>, r'))
                      else (c4, r4));
          (c6, r6) = (if lvl \<ge> selective_recall_intro_level meta
                      then (let (b, r') = coin r5;
                                c = c5\<lparr>selective_recall := b\<rparr>
                            in (if selective_recall c then c\<lparr>backward := False\<rparr> else c, r'))
                      else (c5, r5));
          (c7, r7) = (if lvl \<ge> ordering_intro_level meta
                      then (let (b, r') = coin r6;
                                c = c6\<lparr>ordering := b\<rparr>
                            in (if ordering c
                                then c\<lparr>backward := False, selective_recall := False\<rparr>
                                else c, r'))
                      else (c6, r6))
      in (c7\<lparr>instruction := ds_get_instruction_text c7\<rparr>, r7))"

text \<open>
  \<open>generate_next_challenge_config\<close>: the settings are loaded from the store; a missing
  section (\<open>KeyError\<close>) selects the built-in meta-parameters; a settings document that is a
  list cannot be indexed by a key (\<open>TypeError\<close>, not caught).
\<close>

definition ds_generate_next_challenge_config ::
  "fs \<Rightarrow> int \<Rightarrow> rng \<Rightarrow> (error + digit_config \<times> rng) \<times> fs" where
  "ds_generate_next_challenge_config s lvl r =
     (case ds_load_settings s of
        (Inl e, s1) \<Rightarrow> (Inl e, s1)
      | (Inr (SettingsDoc st), s1) \<Rightarrow>
          (Inr (ds_config_from_meta
                  (case digit_span_section st of None \<Rightarrow> builtin_digit_meta | Some m \<Rightarrow> m)
                  lvl r), s1)
      | (Inr (ProgressDoc p), s1) \<Rightarrow> (Inr (ds_config_from_meta builtin_digit_meta lvl r), s1)
      | (Inr (HistoryDoc h), s1) \<Rightarrow> (Inl TypeError, s1))"

text \<open>The comprehension \<open>[random.randint(0, 9) for _ in range(length)]\<close>.\<close>

fun draw_digits :: "nat \<Rightarrow> rng \<Rightarrow> int list \<times> rng" where
  "draw_digits 0 r = ([], r)"
| "draw_digits (Suc n) r =
     (let (ds, r') = draw_digits n (next_rng r) in (randint_value 0 9 (r 0) # ds, r'))"

text \<open>
  \<open>generate_sequence\<close>. In the assignment \<open>sequence[random.randint(0, length - 1)] =
  random.choice([1, 3, 5, 7, 9])\<close> Python evaluates the right-hand side first, then the
  index.
\<close>

definition generate_sequence :: "digit_config \<Rightarrow> rng \<Rightarrow> error + int list \<times> rng" where
  "generate_sequence config r =
     (let len = sequence_length config;
          (sq, r1) = draw_digits (nat len) r
      in if selective_recall config \<and> \<not> list_ex (\<lambda>d. d mod 2 = 1) sq then
           (case choice [1, 3, 5, 7, 9] r1 of
              Inl e \<Rightarrow> Inl e
            | Inr (v, r2) \<Rightarrow>
                (case randint 0 (len - 1) r2 of
                   Inl e \<Rightarrow> Inl e
                 | Inr (i, r3) \<Rightarrow> Inr (sq[nat i := v], r3)))
         else Inr (sq, r1))"

definition get_expected_answer :: "int list \<Rightarrow> digit_config \<Rightarrow> int list" where
  "get_expected_answer sq config =
     (if backward config then rev sq
      else if selective_recall config then filter (\<lambda>d. d mod 2 = 1) sq
      else if ordering config then sort sq
      else sq)"

section \<open>Digit span: grading and answer input\<close>

text \<open>Python's \<open>str\<close> of a non-negative integer, used by the f-strings of the feedback.\<close>

definition digit_char :: "nat \<Rightarrow> char" where
  "digit_char n = ''0123456789'' ! n"

function str_nat :: "nat \<Rightarrow> string" where
  "str_nat n = (if n < 10 then [digit_char n] else str_nat (n div 10) @ [digit_char (n mod 10)])"
  by pat_completeness auto
termination
  by (relation "measure id") auto

declare str_nat.simps [simp del]

definition validate_user_answer :: "int list \<Rightarrow> int list \<Rightarrow> digit_config \<Rightarrow> string" where
  "validate_user_answer ua expected config =
     (if ua = expected then ''Correct!''
      else if length ua \<noteq> length expected then
        ''Incorrect length. Expected '' @ str_nat (length expected) @ '' digits, got ''
          @ str_nat (length ua) @ ''.''
      else
        (let correct_positions = length (filter (\<lambda>(u, e). u = e) (zip ua expected))
         in if sort ua = sort expected \<and> \<not> ordering config then
              ''All digits correct but in wrong order. '' @ str_nat correct_positions @ ''/''
                @ str_nat (length expected) @ '' in correct position.''
            else
              ''Partially correct. '' @ str_nat correct_positions @ ''/''
                @ str_nat (length expected) @ '' digits in correct position.''))"

text \<open>
  What \<open>getch\<close> delivers: a key code, or the \<open>KeyboardInterrupt\<close> raised while waiting. The
  named codes are those of curses.
\<close>

datatype event = Key int | Interrupt

definition KEY_ENTER :: int where "KEY_ENTER = 343"
definition KEY_BACKSPACE :: int where "KEY_BACKSPACE = 263"
definition KEY_DOWN :: int where "KEY_DOWN = 258"
definition KEY_UP :: int where "KEY_UP = 259"
definition KEY_LEFT :: int where "KEY_LEFT = 260"
definition KEY_RIGHT :: int where "KEY_RIGHT = 261"

text \<open>
  \<open>[int(d) for d in user_input]\<close> with its \<open>except ValueError\<close>: one character that is not a
  digit makes the whole answer empty.
\<close>

definition is_digit :: "char \<Rightarrow> bool" where
  "is_digit c \<longleftrightarrow> c \<in> set ''0123456789''"

definition digit_value :: "char \<Rightarrow> int" where
  "digit_value c = int (of_char c) - 48"

definition parse_digits :: "string \<Rightarrow> int list" where
  "parse_digits user_input =
     (if list_all is_digit user_input then map digit_value user_input else [])"

text \<open>
  How the \<open>while True\<close> loop of \<open>get_user_response\<close> is left: by one of its three \<open>return\<close>
  statements (the flag tells whether \<open>WM_EXIT\<close> was set), or by its \<open>break\<close>, with the values
  of \<open>success\<close> and \<open>user_input\<close> at that moment.
\<close>

datatype loop_exit = Returned bool | Broke bool string

text \<open>
  The loop, over the events still to come; its state is \<open>user_input\<close> and
  \<open>validation_feedback\<close>. With no event left the loop waits for a key: no result.
\<close>

fun input_loop ::
  "int list \<Rightarrow> digit_config \<Rightarrow> string \<Rightarrow> string \<Rightarrow> event list \<Rightarrow> loop_exit option" where
  "input_loop expected config user_input feedback [] = None"
| "input_loop expected config user_input feedback (Interrupt # es) = Some (Returned True)"
| "input_loop expected config user_input feedback (Key k # es) =
     (if k = 3 then Some (Returned True)
      else if k \<in> {109, 77} then Some (Returned False)
      else if k \<in> {KEY_ENTER, 10, 13} then
        (let ua = parse_digits user_input;
             succ = (ua = expected);
             feedback' = validate_user_answer ua expected config
         in if succ then Some (Broke succ user_input)
            else input_loop expected config user_input feedback' es)
      else if k = KEY_BACKSPACE \<or> k = 127 then
        input_loop expected config
          (if user_input \<noteq> [] then butlast user_input else user_input) feedback es
      else if k \<ge> 48 \<and> k \<le> 57 then
        input_loop expected config
          (if length user_input < 20 then user_input @ [digit_char (nat (k - 48))]
           else user_input) feedback es
      else input_loop expected config user_input feedback es)"

text \<open>
  \<open>get_user_response\<close> of the digit span: the result is the triple returned, together with
  the flag \<open>WM_EXIT\<close>. \<open>elapsed\<close> is the clock difference \<open>time.time() - start_time\<close> read after
  the loop.
\<close>

definition ds_get_user_response ::
  "int list \<Rightarrow> digit_config \<Rightarrow> event list \<Rightarrow> real \<Rightarrow> (bool \<times> real \<times> int list \<times> bool) option" where
  "ds_get_user_response sq config events elapsed =
     (let expected = get_expected_answer sq config
      in case input_loop expected config [] [] events of
           None \<Rightarrow> None
         | Some (Returned wm_exit) \<Rightarrow> Some (False, 0, [], wm_exit)
         | Some (Broke succ user_input) \<Rightarrow>
             Some (succ, elapsed, parse_digits user_input, False))"

section \<open>Spatial pattern (spatial\_pattern/spatial\_pattern.py)\<close>

text \<open>The functions of this module carry the prefix \<open>sp_\<close> where the names clash.\<close>

record spatial_config =
  grid_size :: int
  pattern_size :: int
  sp_display_time :: real
  interference :: bool
  use_multiple_highlights :: bool
  sp_instruction :: string

text \<open>The eight strings of \<open>HIGHLIGHT_PATTERNS\<close>, by name and in the order of the list.\<close>

datatype highlight = Solid | Dense | Medium | Light | Square | Diamond | Circle | Star

definition HIGHLIGHT_PATTERNS :: "highlight list" where
  "HIGHLIGHT_PATTERNS = [Solid, Dense, Medium, Light, Square, Diamond, Circle, Star]"

definition builtin_spatial_meta :: spatial_meta where
  "builtin_spatial_meta =
     \<lparr>grid_size_base = 3, grid_size_increase_every_n_levels = Some 2, max_grid_size = 7,
      min_cells_level_1 = 3, max_additional_cells_per_level = 2,
      display_time_base = 3 / 2, sp_display_time_reduction_per_level = 1 / 10,
      multiple_highlights_intro_level = Some 5, sp_interference_intro_level = Some 7\<rparr>"

definition sp_load_settings :: "fs \<Rightarrow> (error + document) \<times> fs" where
  "sp_load_settings s =
     load_json_file s SETTINGS_FILE
       (Some (SettingsDoc \<lparr>challenges_per_session = 10, current_user = ''default'',
                            digit_span_section = None,
                            spatial_pattern_section = Some builtin_spatial_meta\<rparr>))"

text \<open>
  \<open>settings["game_meta_parameters"]["spatial_pattern"]\<close> with its \<open>except KeyError\<close>: a missing
  section selects the built-in meta-parameters; a list cannot be indexed by a key.
\<close>

definition sp_meta_parameters :: "document \<Rightarrow> error + spatial_meta" where
  "sp_meta_parameters d =
     (case d of
        SettingsDoc st \<Rightarrow>
          (case spatial_pattern_section st of None \<Rightarrow> Inr builtin_spatial_meta | Some m \<Rightarrow> Inr m)
      | ProgressDoc p \<Rightarrow> Inr builtin_spatial_meta
      | HistoryDoc h \<Rightarrow> Inl TypeError)"

text \<open>Python's \<open>str\<close> of an integer.\<close>

definition str_int :: "int \<Rightarrow> string" where
  "str_int i = (if i < 0 then ''-'' @ str_nat (nat (- i)) else str_nat (nat i))"

definition sp_get_instruction_text :: "spatial_config \<Rightarrow> string" where
  "sp_get_instruction_text config =
     (if interference config then
        ''Remember the pattern - You'' @ [CHR 0x27] @ ''ll solve a math problem before recalling''
      else if use_multiple_highlights config then
        ''Remember the pattern with '' @ str_int (pattern_size config)
          @ '' cells AND their highlight style''
      else
        ''Remember the pattern with '' @ str_int (pattern_size config) @ '' highlighted cells'')"

text \<open>
  The body of the spatial \<open>generate_next_challenge_config\<close> once the meta-parameters are
  known. The floor division raises \<open>ZeroDivisionError\<close> for a step of 0 and
  \<open>random.randint\<close> raises \<open>ValueError\<close> when \<open>min_cells\<close> exceeds \<open>max_cells\<close>.
\<close>

definition sp_config_from_meta ::
  "spatial_meta \<Rightarrow> int \<Rightarrow> rng \<Rightarrow> error + spatial_config \<times> rng" where
  "sp_config_from_meta meta lvl r =
     (let c0 = \<lparr>grid_size = 0, pattern_size = 0, sp_display_time = 0, interference = False,
                use_multiple_highlights = False, sp_instruction = []\<rparr>;
          every_n = (case grid_size_increase_every_n_levels meta of None \<Rightarrow> 2 | Some n \<Rightarrow> n)
      in if every_n = 0 then Inl ZeroDivisionError
         else
           (let grid_size_increase =
                  min ((lvl - 1) div every_n) (max_grid_size meta - grid_size_base meta);
                c1 = c0\<lparr>grid_size := grid_size_base meta + grid_size_increase\<rparr>;
                min_cells = min_cells_level_1 meta
                              + (lvl - 1) * max_additional_cells_per_level meta;
                max_cells = min (min_cells + max_additional_cells_per_level meta)
                                (grid_size c1 * grid_size c1 - 1)
            in case randint min_cells max_cells r of
                 Inl e \<Rightarrow> Inl e
               | Inr (n, r1) \<Rightarrow>
                   (let c2 = c1\<lparr>pattern_size := n\<rparr>;
                        c3 = c2\<lparr>sp_display_time :=
                                  max (1 / 2) (display_time_base meta - of_int (lvl - 1)
                                     * sp_display_time_reduction_per_level meta)\<rparr>;
                        interference_level =
                          (case sp_interference_intro_level meta of None \<Rightarrow> 7 | Some n \<Rightarrow> n);
                        (c4, r4) = (if lvl \<ge> interference_level
                                    then (let (b, r') = coin r1 in (c3\<lparr>interference := b\<rparr>, r'))
                                    else (c3, r1));
                        multiple_highlights_level =
                          (case multiple_highlights_intro_level meta of None \<Rightarrow> 5 | Some n \<Rightarrow> n);
                        (c5, r5) = (if lvl \<ge> multiple_highlights_level
                                    then (let (b, r') = coin r4
                                          in (c4\<lparr>use_multiple_highlights := b\<rparr>, r'))
                                    else (c4, r4))
                    in Inr (c5\<lparr>sp_instruction := sp_get_instruction_text c5\<rparr>, r5))))"

definition sp_generate_next_challenge_config ::
  "fs \<Rightarrow> int \<Rightarrow> rng \<Rightarrow> (error + spatial_config \<times> rng) \<times> fs" where
  "sp_generate_next_challenge_config s lvl r =
     (case sp_load_settings s of
        (Inl e, s1) \<Rightarrow> (Inl e, s1)
      | (Inr d, s1) \<Rightarrow>
          (case sp_meta_parameters d of
             Inl e \<Rightarrow> (Inl e, s1)
           | Inr meta \<Rightarrow> (sp_config_from_meta meta lvl r, s1)))"

text \<open>
  \<open>random.sample(population, k)\<close>: \<open>k\<close> elements at distinct positions of the population, in
  the order of selection; \<open>ValueError\<close> when \<open>k\<close> is negative or exceeds the population.
\<close>

fun sample_from :: "'a list \<Rightarrow> nat \<Rightarrow> rng \<Rightarrow> 'a list \<times> rng" where
  "sample_from xs 0 r = ([], r)"
| "sample_from xs (Suc k) r =
     (let i = r 0 mod length xs;
          (ys, r') = sample_from (take i xs @ drop (Suc i) xs) k (next_rng r)
      in (xs ! i # ys, r'))"

definition sample :: "'a list \<Rightarrow> int \<Rightarrow> rng \<Rightarrow> error + 'a list \<times> rng" where
  "sample xs k r =
     (if k < 0 \<or> int (length xs) < k then Inl ValueError else Inr (sample_from xs (nat k) r))"

text \<open>The loop \<open>for pos in pattern: highlights[position] = random.choice(highlight_types)\<close>.\<close>

fun choose_highlights ::
  "(int \<times> int) list \<Rightarrow> highlight list \<Rightarrow> (int \<times> int \<Rightarrow> highlight option) \<Rightarrow> rng
     \<Rightarrow> error + (int \<times> int \<Rightarrow> highlight option) \<times> rng" where
  "choose_highlights [] types hl r = Inr (hl, r)"
| "choose_highlights (pos # ps) types hl r =
     (case choice types r of
        Inl e \<Rightarrow> Inl e
      | Inr (t, r') \<Rightarrow> choose_highlights ps types (hl(pos \<mapsto> t)) r')"

definition generate_pattern ::
  "spatial_config \<Rightarrow> rng
     \<Rightarrow> error + (int \<times> int) list \<times> (int \<times> int \<Rightarrow> highlight option) \<times> rng" where
  "generate_pattern config r =
     (let all_positions = List.product [0..grid_size config - 1] [0..grid_size config - 1]
      in case sample all_positions (pattern_size config) r of
           Inl e \<Rightarrow> Inl e
         | Inr (picked, r1) \<Rightarrow>
             (let pattern = sort picked
              in if use_multiple_highlights config then
                   (case sample HIGHLIGHT_PATTERNS (min 3 (int (length HIGHLIGHT_PATTERNS))) r1 of
                      Inl e \<Rightarrow> Inl e
                    | Inr (highlight_types, r2) \<Rightarrow>
                        (case choose_highlights pattern highlight_types Map.empty r2 of
                           Inl e \<Rightarrow> Inl e
                         | Inr (hl, r3) \<Rightarrow> Inr (pattern, hl, r3)))
                 else
                   Inr (pattern,
                        fold (\<lambda>pos hl. hl(pos \<mapsto> HIGHLIGHT_PATTERNS ! 0)) pattern Map.empty,
                        r1)))"

text \<open>
  The input loop of the spatial \<open>get_user_response\<close>; its state is the cursor position and
  the list of selected cells. \<open>elapsed\<close> is the clock difference read at submission.
\<close>

fun select_loop ::
  "(int \<times> int) list \<Rightarrow> spatial_config \<Rightarrow> real \<Rightarrow> int \<times> int \<Rightarrow> (int \<times> int) list \<Rightarrow> event list
     \<Rightarrow> (bool \<times> real \<times> (int \<times> int) list \<times> bool) option" where
  "select_loop pattern config elapsed cursor_pos selected_cells [] = None"
| "select_loop pattern config elapsed cursor_pos selected_cells (Interrupt # es) =
     Some (False, 0, [], True)"
| "select_loop pattern config elapsed cursor_pos selected_cells (Key k # es) =
     (if k = 3 then Some (False, 0, [], True)
      else if k \<in> {109, 77} then Some (False, 0, [], False)
      else if k \<in> {115, 83, KEY_ENTER, 10, 13} then
        Some (sort selected_cells = sort pattern, elapsed, selected_cells, False)
      else if k = 32 then
        select_loop pattern config elapsed cursor_pos
          (if cursor_pos \<in> set selected_cells then remove1 cursor_pos selected_cells
           else if int (length selected_cells) < pattern_size config
                then selected_cells @ [cursor_pos] else selected_cells) es
      else if k \<in> {107, KEY_UP} \<and> fst cursor_pos > 0 then
        select_loop pattern config elapsed (fst cursor_pos - 1, snd cursor_pos) selected_cells es
      else if k \<in> {106, KEY_DOWN} \<and> fst cursor_pos < grid_size config - 1 then
        select_loop pattern config elapsed (fst cursor_pos + 1, snd cursor_pos) selected_cells es
      else if k \<in> {104, KEY_LEFT} \<and> snd cursor_pos > 0 then
        select_loop pattern config elapsed (fst cursor_pos, snd cursor_pos - 1) selected_cells es
      else if k \<in> {108, KEY_RIGHT} \<and> snd cursor_pos < grid_size config - 1 then
        select_loop pattern config elapsed (fst cursor_pos, snd cursor_pos + 1) selected_cells es
      else select_loop pattern config elapsed cursor_pos selected_cells es)"

definition sp_get_user_response ::
  "(int \<times> int) list \<Rightarrow> spatial_config \<Rightarrow> event list \<Rightarrow> real
     \<Rightarrow> (bool \<times> real \<times> (int \<times> int) list \<times> bool) option" where
  "sp_get_user_response pattern config events elapsed =
     select_loop pattern config elapsed (0, 0) [] events"

section \<open>Session queue (main\_menu.py, game\_session.py, wrapper.py)\<close>

text \<open>The game categories of \<open>wrapper.py\<close>, which it passes to the functions below.\<close>

definition STRATEGY_1_GAMES :: "string list" where
  "STRATEGY_1_GAMES = [''digit_span'', ''n_back'', ''spatial_pattern'']"

definition STRATEGY_2_GAMES :: "string list" where
  "STRATEGY_2_GAMES = [''shopping_list'', ''mental_math'', ''story_details'']"

definition ALL_GAMES :: "string list" where
  "ALL_GAMES = STRATEGY_1_GAMES @ STRATEGY_2_GAMES"

text \<open>
  \<open>load_settings\<close> of \<open>save_load.py\<close>; its default spatial section has none of the three
  optional keys. The sections of the games that are not implemented are not modelled.
\<close>

definition load_settings :: "fs \<Rightarrow> (error + document) \<times> fs" where
  "load_settings s =
     load_json_file s SETTINGS_FILE
       (Some (SettingsDoc
          \<lparr>challenges_per_session = 10, current_user = ''default'',
           digit_span_section = Some builtin_digit_meta,
           spatial_pattern_section =
             Some (builtin_spatial_meta\<lparr>grid_size_increase_every_n_levels := None,
                                        multiple_highlights_intro_level := None,
                                        sp_interference_intro_level := None\<rparr>)\<rparr>))"

text \<open>\<open>k\<close> independent picks \<open>random.choice(category)\<close>, in the order they are made.\<close>

fun random_games :: "string list \<Rightarrow> nat \<Rightarrow> rng \<Rightarrow> error + string list \<times> rng" where
  "random_games category 0 r = Inr ([], r)"
| "random_games category (Suc k) r =
     (case choice category r of
        Inl e \<Rightarrow> Inl e
      | Inr (g, r1) \<Rightarrow>
          (case random_games category k r1 of
             Inl e \<Rightarrow> Inl e
           | Inr (gs, r2) \<Rightarrow> Inr (g # gs, r2)))"

definition get_game_for_session ::
  "fs \<Rightarrow> string \<Rightarrow> string \<Rightarrow> string list \<Rightarrow> string list \<Rightarrow> string list \<Rightarrow> rng
     \<Rightarrow> (error + string list \<times> rng) \<times> fs" where
  "get_game_for_session s choice_type choice_value all_games strategy_1_games
       strategy_2_games r =
     (case load_settings s of
        (Inl e, s1) \<Rightarrow> (Inl e, s1)
      | (Inr (SettingsDoc st), s1) \<Rightarrow>
          (let games_per_session = challenges_per_session st
           in if choice_type = ''game'' then
                (Inr (replicate (nat games_per_session) choice_value, r), s1)
              else if choice_type = ''random'' then
                (random_games
                   (if choice_value = ''strategy1'' then strategy_1_games
                    else if choice_value = ''strategy2'' then strategy_2_games
                    else all_games)
                   (nat games_per_session) r, s1)
              else (Inr ([], r), s1))
      | (Inr (ProgressDoc p), s1) \<Rightarrow> (Inl KeyError, s1)
      | (Inr (HistoryDoc h), s1) \<Rightarrow> (Inl TypeError, s1))"

text \<open>
  \<open>handle_session_continuation\<close>. The session type is derived from the game just played.
  The function shows one of three prompts, then waits for keys. Its outcome is the pair it
  returns (continue, queue) and whether \<open>WM_EXIT\<close> was set.
\<close>

datatype session_type = Single | Strategy1 | Strategy2 | RandomAll

definition session_type_of ::
  "string \<Rightarrow> string list \<Rightarrow> string list \<Rightarrow> string list \<Rightarrow> session_type" where
  "session_type_of current_game all_games strategy_1_games strategy_2_games =
     (if current_game \<in> set all_games then Single
      else if current_game \<in> set strategy_1_games then Strategy1
      else if current_game \<in> set strategy_2_games then Strategy2
      else RandomAll)"

text \<open>The four challenges added on \<open>Y\<close>.\<close>

definition more_challenges ::
  "session_type \<Rightarrow> string \<Rightarrow> string list \<Rightarrow> string list \<Rightarrow> string list \<Rightarrow> rng
     \<Rightarrow> error + string list \<times> rng" where
  "more_challenges st current_game all_games strategy_1_games strategy_2_games r =
     (case st of
        Single \<Rightarrow> Inr (replicate 4 current_game, r)
      | Strategy1 \<Rightarrow> random_games strategy_1_games 4 r
      | Strategy2 \<Rightarrow> random_games strategy_2_games 4 r
      | RandomAll \<Rightarrow> random_games all_games 4 r)"

datatype prompt = SessionComplete | ContinuePlaying | AnyKey

type_synonym outcome = "(error + bool \<times> string list \<times> bool) \<times> rng"

text \<open>
  The \<open>while True\<close> loop of the first two branches (they differ in the prompt only). A key
  that is none of those handled is ignored; with no event left the loop waits.
\<close>

fun decision_loop ::
  "string list \<Rightarrow> session_type \<Rightarrow> string \<Rightarrow> string list \<Rightarrow> string list \<Rightarrow> string list
     \<Rightarrow> event list \<Rightarrow> rng \<Rightarrow> outcome option" where
  "decision_loop queue st current_game all_games s1 s2 [] r = None"
| "decision_loop queue st current_game all_games s1 s2 (Interrupt # es) r =
     Some (Inr (False, queue, True), r)"
| "decision_loop queue st current_game all_games s1 s2 (Key k # es) r =
     (if k = 3 \<or> k \<in> {113, 81} then Some (Inr (False, queue, True), r)
      else if k \<in> {109, 77} then Some (Inr (False, queue, False), r)
      else if k \<in> {121, 89} then
        (case more_challenges st current_game all_games s1 s2 r of
           Inl e \<Rightarrow> Some (Inl e, r)
         | Inr (gs, r1) \<Rightarrow> Some (Inr (True, queue @ gs, False), r1))
      else if k \<in> {110, 78} then Some (Inr (False, queue, False), r)
      else if k \<in> {112, 80} then Some (Inr (False, queue, False), r)
      else decision_loop queue st current_game all_games s1 s2 es r)"

definition handle_session_continuation ::
  "string list \<Rightarrow> int \<Rightarrow> string \<Rightarrow> string list \<Rightarrow> string list \<Rightarrow> string list
     \<Rightarrow> event list \<Rightarrow> rng \<Rightarrow> prompt \<times> outcome option" where
  "handle_session_continuation games_queue challenges_completed current_game all_games s1 s2
       events r =
     (let st = session_type_of current_game all_games s1 s2
      in if games_queue = [] \<and> challenges_completed mod 10 = 0 then
           (SessionComplete, decision_loop games_queue st current_game all_games s1 s2 events r)
         else if games_queue = [] then
           (ContinuePlaying, decision_loop games_queue st current_game all_games s1 s2 events r)
         else
           (AnyKey,
            case events of
              [] \<Rightarrow> None
            | Interrupt # es \<Rightarrow> Some (Inr (False, games_queue, True), r)
            | Key k # es \<Rightarrow>
                (if k = 3 \<or> k \<in> {113, 81} then Some (Inr (False, games_queue, True), r)
                 else if k \<in> {109, 77} then Some (Inr (False, games_queue, False), r)
                 else Some (Inr (True, games_queue, False), r))))"

text \<open>
  The queue handling of the loop of \<open>start_game_session\<close>, for rounds that are played to
  their end (no exit request and no exception in the game or in the progress update): the
  front of the queue is popped and counted, the game is played, then
  \<open>handle_session_continuation\<close> decides. The argument gives, round by round, the keys
  pressed at the prompt; the result lists, round by round, the number of challenges
  completed and the prompt shown.
\<close>

fun session_rounds ::
  "string list \<Rightarrow> int \<Rightarrow> string list \<Rightarrow> string list \<Rightarrow> string list \<Rightarrow> event list list \<Rightarrow> rng
     \<Rightarrow> (int \<times> prompt) list" where
  "session_rounds games_queue challenges_completed all_games s1 s2 [] r = []"
| "session_rounds games_queue challenges_completed all_games s1 s2 (events # rest) r =
     (case games_queue of
        [] \<Rightarrow> []
      | current_game # queue \<Rightarrow>
          (let n = challenges_completed + 1;
               (p, out) = handle_session_continuation queue n current_game all_games s1 s2
                            events r
           in (n, p) #
              (case out of
                 Some (Inr (continue_session, queue', wm_exit), r') \<Rightarrow>
                   (if continue_session \<and> \<not> wm_exit
                    then session_rounds queue' n all_games s1 s2 rest r' else [])
               | _ \<Rightarrow> [])))"

section \<open>The expected answer as the specification words it\<close>

text \<open>
  These three definitions follow the specification, not the source: exactly one rule
  applies to a challenge, chosen in the strict order backward, selective recall, ordering,
  forward; the rules are reversal, the odd digits in their original order, ascending
  sorting and identity.
\<close>

datatype recall_rule = Reverse | OddOnly | Ascending | Forward

definition spec_rule :: "digit_config \<Rightarrow> recall_rule" where
  "spec_rule config =
     (if backward config then Reverse
      else if selective_recall config then OddOnly
      else if ordering config then Ascending
      else Forward)"

fun spec_apply :: "recall_rule \<Rightarrow> int list \<Rightarrow> int list" where
  "spec_apply Reverse sq = rev sq"
| "spec_apply OddOnly sq = filter odd sq"
| "spec_apply Ascending sq = sort sq"
| "spec_apply Forward sq = sq"

definition expected_answer_spec :: "int list \<Rightarrow> digit_config \<Rightarrow> int list" where
  "expected_answer_spec sq config = spec_apply (spec_rule config) sq"

section \<open>Example inputs\<close>

definition level_down_record :: game_progress where
  "level_down_record =
     \<lparr>level = 3, upgrade = - 4, highest_level_reached = 5, total_challenges = 40,
      successful_challenges = 30, current_streak = 0, longest_streak = 12,
      avg_response_time = 2, extras = []\<rparr>"

definition level_down_store :: fs where
  "level_down_store =
     \<lparr>files = [''spatial_pattern/spatial_pattern.json'' \<mapsto> Valid (ProgressDoc level_down_record)],
      unreadable = {}, unwritable = {}\<rparr>"




definition fresh_store :: fs where
  "fresh_store = \<lparr>files = Map.empty, unreadable = {}, unwritable = {}\<rparr>"

definition selective_config :: digit_config where
  "selective_config =
     \<lparr>sequence_length = 5, display_time = 3 / 10, inter_digit_delay = 3 / 20,
      backward = False, interference_task = False, selective_recall = True,
      ordering = False, instruction = ''Remember the sequence but only repeat ODD digits''\<rparr>"

definition forward_config :: digit_config where
  "forward_config =
     \<lparr>sequence_length = 3, display_time = 1, inter_digit_delay = 1 / 2,
      backward = False, interference_task = False, selective_recall = False,
      ordering = False, instruction = ''Remember the sequence''\<rparr>"

definition small_grid_config :: spatial_config where
  "small_grid_config =
     \<lparr>grid_size = 3, pattern_size = 2, sp_display_time = 3 / 2, interference = False,
      use_multiple_highlights = False,
      sp_instruction = ''Remember the pattern with 2 highlighted cells''\<rparr>"

text \<open>A stream of draws, the keys of a player who presses \<open>Y\<close> at every prompt, and the
  rounds of a trace at which a continuation decision was shown.\<close>

definition always_one :: rng where
  "always_one = (\<lambda>n. 1)"

definition yes_at_every_prompt :: "event list list" where
  "yes_at_every_prompt = replicate 20 [Key 121]"

definition decision_rounds :: "(int \<times> prompt) list \<Rightarrow> int list" where
  "decision_rounds trace = map fst (filter (\<lambda>(n, p). p \<noteq> AnyKey) trace)"

definition zeros_then_ones :: rng where
  "zeros_then_ones = (\<lambda>n. if n < 10 then 0 else 1)"








section \<open>Properties of the document store\<close>

lemma load_absent_creates_default:
  "files s p = None \<Longrightarrow> p \<notin> unwritable s \<Longrightarrow>
   load_json_file s p (Some d) = (Inr d, s\<lparr>files := (files s)(p \<mapsto> Valid d)\<rparr>)"
  by (simp add: load_json_file_def write_json_def)

lemma load_absent_returns_default:
  "files s p = None \<Longrightarrow> fst (load_json_file s p (Some d)) = Inr d"
  by (simp add: load_json_file_def split: sum.splits)

lemma load_corrupt_overwrites_with_default:
  "files s p = Some Corrupt \<Longrightarrow> p \<notin> unreadable s \<Longrightarrow> p \<notin> unwritable s \<Longrightarrow>
   load_json_file s p (Some d) = (Inr d, s\<lparr>files := (files s)(p \<mapsto> Valid d)\<rparr>)"
  by (simp add: load_json_file_def write_json_def)

lemma load_with_default_raises_iff:
  "(\<exists>e. fst (load_json_file s p (Some d)) = Inl e) \<longleftrightarrow>
   (files s p = Some Corrupt \<and> p \<notin> unreadable s \<and> p \<in> unwritable s)"
  by (auto simp add: load_json_file_def write_json_def
           split: option.splits content.splits sum.splits)

lemma save_reports_write_failure:
  "p \<in> unwritable s \<Longrightarrow> save_json_file s p d = (False, s)"
  by (simp add: save_json_file_def write_json_def)

lemma save_success:
  "p \<notin> unwritable s \<Longrightarrow>
   save_json_file s p d = (True, s\<lparr>files := (files s)(p \<mapsto> Valid d)\<rparr>)"
  by (simp add: save_json_file_def write_json_def)

text \<open>
  Claim C9. With a default supplied, the load is meant to return the default whenever the
  file is missing or invalid and never to raise. A file whose text does not decode and which
  cannot be opened for writing (a read-only file) makes the load raise \<open>OSError\<close> instead
  of returning the default: the write in the \<open>JSONDecodeError\<close> handler is not protected,
  while the same failed write for a missing file is caught and the default returned.
\<close>

theorem load_json_file_corrupt_read_only_raises:
  "load_json_file
     \<lparr>files = [''digit_span/digit_span_history.json'' \<mapsto> Corrupt], unreadable = {},
      unwritable = {''digit_span/digit_span_history.json''}\<rparr>
     ''digit_span/digit_span_history.json'' (Some (HistoryDoc []))
   = (Inl OSError,
      \<lparr>files = [''digit_span/digit_span_history.json'' \<mapsto> Corrupt], unreadable = {},
       unwritable = {''digit_span/digit_span_history.json''}\<rparr>)"
  by (simp add: load_json_file_def write_json_def)


section \<open>The progress update\<close>

lemma paths_differ: "get_game_progress_path g \<noteq> get_game_history_path g"
  by (simp add: get_game_progress_path_def get_game_history_path_def)

lemma load_valid:
  "files s p = Some (Valid d) \<Longrightarrow> p \<notin> unreadable s \<Longrightarrow> load_json_file s p dflt = (Inr d, s)"
  by (simp add: load_json_file_def)

lemma add_history_entry_appends:
  assumes "files s (get_game_history_path g) = Some (Valid (HistoryDoc h)) \<or>
           (files s (get_game_history_path g) = None \<and> h = [])"
    and "get_game_history_path g \<notin> unreadable s" and "get_game_history_path g \<notin> unwritable s"
  shows "add_history_entry s g e =
     (Inr True, s\<lparr>files := (files s)(get_game_history_path g \<mapsto> Valid (HistoryDoc (h @ [e])))\<rparr>)"
  using assms
  by (auto simp add: add_history_entry_def load_game_history_def load_valid
      load_absent_creates_default save_game_history_def save_success)

lemma avg_ok:
  "total_challenges p \<noteq> - 1 \<Longrightarrow>
   \<exists>p3. update_response_time_average (update_longest_streak (update_basic_stats p succ)) rt = Inr p3"
  by (auto simp add: update_response_time_average_def update_longest_streak_def
        update_basic_stats_def Let_def)

lemma update_progress_division_by_zero:
  "files s (get_game_progress_path g) = Some (Valid (ProgressDoc p)) \<Longrightarrow>
   get_game_progress_path g \<notin> unreadable s \<Longrightarrow> total_challenges p = - 1 \<Longrightarrow>
   update_progress s g succ rt ans now = (Inl ZeroDivisionError, s)"
  by (simp add: update_progress_def load_game_progress_def load_valid
      update_response_time_average_def update_longest_streak_def update_basic_stats_def Let_def)

lemma update_progress_result:
  assumes pd: "files s (get_game_progress_path g) = Some (Valid (ProgressDoc p)) \<or>
             (files s (get_game_progress_path g) = None \<and> p = default_progress g)"
    and hd: "files s (get_game_history_path g) = Some (Valid (HistoryDoc h)) \<or>
             (files s (get_game_history_path g) = None \<and> h = [])"
    and ok: "store_ok s g"
    and p3: "update_response_time_average (update_longest_streak (update_basic_stats p succ)) rt = Inr p3"
  shows "update_progress s g succ rt ans now =
     (Inr (level (check_level_change p3), upgrade (check_level_change p3)),
      s\<lparr>files := (files s)
          (get_game_progress_path g \<mapsto> Valid (ProgressDoc (check_level_change p3)),
           get_game_history_path g \<mapsto> Valid (HistoryDoc (h @
             [\<lparr>timestamp = now, game = g, entry_level = level p3, success = succ,
               response_time = rt, upgrade_progress = upgrade (check_level_change p3),
               user_answer = (if truthy ans then ans else None)\<rparr>])))\<rparr>)"
proof -
  let ?pp = "get_game_progress_path g" and ?hp = "get_game_history_path g"
  let ?p4 = "check_level_change p3"
  let ?s2 = "s\<lparr>files := (files s)(?pp \<mapsto> Valid (ProgressDoc ?p4))\<rparr>"
  let ?s1 = "s\<lparr>files := (files s)(?pp \<mapsto> Valid (ProgressDoc p))\<rparr>"
  have l: "load_game_progress s g = (Inr (ProgressDoc p), ?s1)"
  proof -
    from pd show ?thesis
    proof
      assume st: "files s ?pp = Some (Valid (ProgressDoc p))"
      then have "(files s)(?pp \<mapsto> Valid (ProgressDoc p)) = files s" by auto
      then show ?thesis
        using st ok by (simp add: load_game_progress_def load_valid store_ok_def)
    next
      assume "files s ?pp = None \<and> p = default_progress g"
      then show ?thesis
        using ok by (simp add: load_game_progress_def load_absent_creates_default store_ok_def)
    qed
  qed
  have sv: "save_game_progress ?s1 g ?p4 = (True, ?s2)"
    using ok by (simp add: save_game_progress_def save_success store_ok_def)
  have hd2: "files ?s2 ?hp = Some (Valid (HistoryDoc h)) \<or> (files ?s2 ?hp = None \<and> h = [])"
    using hd paths_differ[of g] by auto
  have ah: "add_history_entry ?s2 g e =
     (Inr True, ?s2\<lparr>files := (files ?s2)(?hp \<mapsto> Valid (HistoryDoc (h @ [e])))\<rparr>)" for e
    using add_history_entry_appends[OF hd2] ok by (simp add: store_ok_def)
  show ?thesis
    by (simp add: update_progress_def l p3 sv ah Let_def)
qed

lemma avg_fields:
  assumes "update_response_time_average q rt = Inr p3"
  shows "level p3 = level q" "upgrade p3 = upgrade q"
    "highest_level_reached p3 = highest_level_reached q"
    "total_challenges p3 = total_challenges q"
    "successful_challenges p3 = successful_challenges q"
    "current_streak p3 = current_streak q" "longest_streak p3 = longest_streak q"
  using assms
  by (auto simp add: update_response_time_average_def Let_def split: if_splits)

lemma basic_fields:
  "level (update_longest_streak (update_basic_stats p succ)) = level p"
  "upgrade (update_longest_streak (update_basic_stats p succ)) = (if succ then upgrade p + 1 else upgrade p - 1)"
  "highest_level_reached (update_longest_streak (update_basic_stats p succ)) = highest_level_reached p"
  "total_challenges (update_longest_streak (update_basic_stats p succ)) = total_challenges p + 1"
  "successful_challenges (update_longest_streak (update_basic_stats p succ)) =
     (if succ then successful_challenges p + 1 else successful_challenges p)"
  "current_streak (update_longest_streak (update_basic_stats p succ)) = (if succ then current_streak p + 1 else 0)"
  "avg_response_time (update_longest_streak (update_basic_stats p succ)) = avg_response_time p"
  by (simp_all add: update_longest_streak_def update_basic_stats_def Let_def)

lemma level_change_fields:
  "total_challenges (check_level_change q) = total_challenges q"
  "successful_challenges (check_level_change q) = successful_challenges q"
  "current_streak (check_level_change q) = current_streak q"
  "avg_response_time (check_level_change q) = avg_response_time q"
  by (simp_all add: check_level_change_def Let_def)

lemma level_change_value:
  "(level (check_level_change q), upgrade (check_level_change q),
    highest_level_reached (check_level_change q)) =
     (if upgrade q \<ge> 10 \<and> level q < 10
        then (level q + 1, 0, max (highest_level_reached q) (level q + 1))
      else if upgrade q \<le> - 5 \<and> level q > 1
        then (level q - 1, 0, highest_level_reached q)
      else (level q, upgrade q, highest_level_reached q))"
  by (simp add: check_level_change_def Let_def max_def)

text \<open>
  Claim C1. One call of \<open>update_progress\<close> on a progress record \<open>p\<close> (the stored one, or the
  default record on first access; documents readable and writable, the counter of challenges
  not \<open>-1\<close>, where the division of the mean raises) returns normally, stores a record
  \<open>p'\<close> and appends one history entry \<open>e\<close>, where: the total is incremented; on success the
  successes, the streak and \<open>upgrade\<close> are incremented, on failure the streak is reset to 0
  and \<open>upgrade\<close> decremented; then the level goes up (and \<open>upgrade\<close> to 0, the highest level
  raised if exceeded) when \<open>upgrade \<ge> 10\<close> and \<open>level < 10\<close>, else down (and \<open>upgrade\<close> to 0)
  when \<open>upgrade \<le> -5\<close> and \<open>level > 1\<close>, else stays; and the entry records the level of \<open>p\<close>,
  the level before any change.
\<close>

theorem update_progress_applies_transition:
  assumes pd: "files s (get_game_progress_path g) = Some (Valid (ProgressDoc p)) \<or>
             (files s (get_game_progress_path g) = None \<and> p = default_progress g)"
    and hd: "files s (get_game_history_path g) = Some (Valid (HistoryDoc h)) \<or>
             (files s (get_game_history_path g) = None \<and> h = [])"
    and ok: "store_ok s g"
    and nn: "total_challenges p \<noteq> - 1"
  shows "\<exists>s' p' e.
     update_progress s g succ rt ans now = (Inr (level p', upgrade p'), s') \<and>
     files s' (get_game_progress_path g) = Some (Valid (ProgressDoc p')) \<and>
     files s' (get_game_history_path g) = Some (Valid (HistoryDoc (h @ [e]))) \<and>
     entry_level e = level p \<and>
     total_challenges p' = total_challenges p + 1 \<and>
     successful_challenges p' =
       (if succ then successful_challenges p + 1 else successful_challenges p) \<and>
     current_streak p' = (if succ then current_streak p + 1 else 0) \<and>
     (level p', upgrade p', highest_level_reached p') =
       (let u = (if succ then upgrade p + 1 else upgrade p - 1)
        in if u \<ge> 10 \<and> level p < 10
             then (level p + 1, 0, max (highest_level_reached p) (level p + 1))
           else if u \<le> - 5 \<and> level p > 1
             then (level p - 1, 0, highest_level_reached p)
           else (level p, u, highest_level_reached p))"
proof -
  let ?q = "update_longest_streak (update_basic_stats p succ)"
  obtain p3 where p3: "update_response_time_average ?q rt = Inr p3"
    using avg_ok[OF nn] by blast
  let ?p4 = "check_level_change p3"
  note res = update_progress_result[OF pd hd ok p3, of ans now]
  note f3 = avg_fields[OF p3]
  have lv: "(level ?p4, upgrade ?p4, highest_level_reached ?p4) =
       (let u = (if succ then upgrade p + 1 else upgrade p - 1)
        in if u \<ge> 10 \<and> level p < 10
             then (level p + 1, 0, max (highest_level_reached p) (level p + 1))
           else if u \<le> - 5 \<and> level p > 1
             then (level p - 1, 0, highest_level_reached p)
           else (level p, u, highest_level_reached p))"
    unfolding level_change_value f3 basic_fields Let_def by (rule refl)
  show ?thesis
    apply (rule exI, rule exI[of _ ?p4], rule exI)
    apply (intro conjI)
           apply (rule res)
          apply (simp add: paths_differ)
         apply simp
        apply (simp add: f3 basic_fields)
       apply (simp add: level_change_fields f3 basic_fields)
      apply (simp add: level_change_fields f3 basic_fields)
     apply (simp add: level_change_fields f3 basic_fields)
    apply (rule lv)
    done
qed

theorem update_progress_applies_transition_witness:
  "files level_down_store (get_game_progress_path ''spatial_pattern'') =
     Some (Valid (ProgressDoc level_down_record)) \<and>
   files level_down_store (get_game_history_path ''spatial_pattern'') = None \<and>
   store_ok level_down_store ''spatial_pattern'' \<and>
   total_challenges level_down_record \<noteq> - 1 \<and>
   (\<exists>s' p' e.
      update_progress level_down_store ''spatial_pattern'' False 3 (Some (Cells [(0, 0)]))
        ''2025-01-01T10:00:00'' = (Inr (2, 0), s') \<and>
      files s' (get_game_progress_path ''spatial_pattern'') = Some (Valid (ProgressDoc p')) \<and>
      files s' (get_game_history_path ''spatial_pattern'') = Some (Valid (HistoryDoc [e])) \<and>
      entry_level e = 3 \<and> level p' = 2 \<and> upgrade p' = 0 \<and> total_challenges p' = 41 \<and>
      successful_challenges p' = 30 \<and> current_streak p' = 0 \<and> highest_level_reached p' = 5)"
proof -
  have pd: "files level_down_store (get_game_progress_path ''spatial_pattern'') =
     Some (Valid (ProgressDoc level_down_record))"
    by (simp add: level_down_store_def get_game_progress_path_def)
  have hn: "files level_down_store (get_game_history_path ''spatial_pattern'') = None"
    by (simp add: level_down_store_def get_game_history_path_def)
  have hd: "files level_down_store (get_game_history_path ''spatial_pattern'') =
              Some (Valid (HistoryDoc [])) \<or>
            (files level_down_store (get_game_history_path ''spatial_pattern'') = None \<and>
             [] = ([] :: history_entry list))"
    using hn by simp
  have ok: "store_ok level_down_store ''spatial_pattern''"
    by (simp add: store_ok_def level_down_store_def)
  have nn: "total_challenges level_down_record \<noteq> - 1"
    by (simp add: level_down_record_def)
  from update_progress_applies_transition[OF disjI1[OF pd] hd ok nn, of False 3 "Some (Cells [(0, 0)])"
      "''2025-01-01T10:00:00''"]
  obtain s' p' e where
    "update_progress level_down_store ''spatial_pattern'' False 3 (Some (Cells [(0, 0)]))
        ''2025-01-01T10:00:00'' = (Inr (level p', upgrade p'), s')"
    "files s' (get_game_progress_path ''spatial_pattern'') = Some (Valid (ProgressDoc p'))"
    "files s' (get_game_history_path ''spatial_pattern'') = Some (Valid (HistoryDoc [e]))"
    "entry_level e = 3" "level p' = 2" "upgrade p' = 0" "total_challenges p' = 41"
    "successful_challenges p' = 30" "current_streak p' = 0" "highest_level_reached p' = 5"
    by (auto simp add: level_down_record_def Let_def)
  then show ?thesis using pd hn ok nn by auto
qed


section \<open>Double-precision arithmetic\<close>




lemma pow2_Suc: "pow2 (e + 1) = 2 * pow2 e"
proof (cases "0 \<le> e")
  case True
  then show ?thesis by (simp add: pow2_def nat_add_distrib)
next
  case False
  then have "nat (- e) = Suc (nat (- (e + 1)))" by simp
  then show ?thesis using False by (auto simp add: pow2_def)
qed














section \<open>Invariants of the progress record\<close>


lemma default_progress_inv: "progress_inv (default_progress g) []"
  by (simp add: progress_inv_def default_progress_def mean_def)

lemma default_progress_inv_rounded: "progress_inv_rounded (default_progress g) []"
  by (simp add: progress_inv_rounded_def default_progress_def mean_def)







section \<open>Digit span: parameter generator\<close>

lemma next_rng_const: "next_rng (\<lambda>n. k) = (\<lambda>n. k)"
  by (simp add: next_rng_def)

lemma draw_digits_zero_stream: "draw_digits n (\<lambda>n. 0) = (replicate n 0, \<lambda>n. 0)"
  by (induction n) (simp_all add: next_rng_const randint_value_def)


lemma ds_config_flags:
  "ds_config_from_meta meta lvl r = (c, r') \<Longrightarrow>
     ((selective_recall c \<or> ordering c) \<longrightarrow> \<not> backward c) \<and>
     (ordering c \<longrightarrow> \<not> selective_recall c)"
  by (auto simp add: ds_config_from_meta_def Let_def split: prod.splits if_splits)

text \<open>
  Claim C4. Whatever the level, the settings in the store and the random draws, a
  configuration returned by the digit-span parameter generator has \<open>backward\<close> false whenever
  \<open>selective_recall\<close> or \<open>ordering\<close> is true, and \<open>selective_recall\<close> false whenever \<open>ordering\<close> is
  true.
\<close>

theorem ds_generate_next_challenge_config_mutual_exclusion:
  "ds_generate_next_challenge_config s lvl r = (Inr (c, r'), s') \<Longrightarrow>
     ((selective_recall c \<or> ordering c) \<longrightarrow> \<not> backward c) \<and>
     (ordering c \<longrightarrow> \<not> selective_recall c)"
  by (auto simp add: ds_generate_next_challenge_config_def
      split: prod.splits sum.splits document.splits dest!: ds_config_flags)

lemma ds_generate_returns:
  "\<not> (files s SETTINGS_FILE = Some Corrupt \<and> SETTINGS_FILE \<notin> unreadable s \<and> SETTINGS_FILE \<in> unwritable s) \<Longrightarrow>
   (\<forall>h. files s SETTINGS_FILE = Some (Valid (HistoryDoc h)) \<longrightarrow> SETTINGS_FILE \<in> unreadable s) \<Longrightarrow>
   \<exists>c r' s'. ds_generate_next_challenge_config s lvl r = (Inr (c, r'), s')"
  apply (simp add: ds_generate_next_challenge_config_def ds_load_settings_def load_json_file_def write_json_def
      split: prod.splits sum.splits document.splits option.splits content.splits)
  apply (auto split: if_splits simp add: prod_eq_iff)
  done

theorem ds_generate_next_challenge_config_mutual_exclusion_witness:
  "\<exists>c r' s'. ds_generate_next_challenge_config fresh_store 9 (\<lambda>n. 0) = (Inr (c, r'), s') \<and>
      ordering c \<and> \<not> backward c \<and> \<not> selective_recall c \<and> sequence_length c = 11"
proof -
  have ld: "ds_load_settings fresh_store =
     (Inr (SettingsDoc \<lparr>challenges_per_session = 10, current_user = ''default'',
                         digit_span_section = Some builtin_digit_meta,
                         spatial_pattern_section = None\<rparr>),
      fresh_store\<lparr>files := (files fresh_store)(SETTINGS_FILE \<mapsto>
         Valid (SettingsDoc \<lparr>challenges_per_session = 10, current_user = ''default'',
                         digit_span_section = Some builtin_digit_meta,
                         spatial_pattern_section = None\<rparr>))\<rparr>)"
    by (simp add: ds_load_settings_def load_json_file_def write_json_def fresh_store_def)
  obtain c r' where cf: "ds_config_from_meta builtin_digit_meta 9 (\<lambda>n. 0) = (c, r')"
    by (cases "ds_config_from_meta builtin_digit_meta 9 (\<lambda>n. 0)")
  have o: "ordering c" and l: "sequence_length c = 11"
    using cf
    by (auto simp add: ds_config_from_meta_def builtin_digit_meta_def coin_def next_rng_const
        Let_def)
  have g: "ds_generate_next_challenge_config fresh_store 9 (\<lambda>n. 0) =
      (Inr (c, r'), snd (ds_load_settings fresh_store))"
    by (simp add: ds_generate_next_challenge_config_def ld cf)
  from ds_generate_next_challenge_config_mutual_exclusion[OF g] o
  have "\<not> backward c" "\<not> selective_recall c" by simp_all
  with g o l show ?thesis by blast
qed

section \<open>Digit span: stimulus generator\<close>

lemma draw_digits_length: "length (fst (draw_digits n r)) = n"
proof (induction n arbitrary: r)
  case 0
  then show ?case by simp
next
  case (Suc n)
  obtain ds r' where dr: "draw_digits n (next_rng r) = (ds, r')"
    by (cases "draw_digits n (next_rng r)")
  with Suc.IH[of "next_rng r"] show ?case by simp
qed

lemma draw_digits_range: "d \<in> set (fst (draw_digits n r)) \<Longrightarrow> 0 \<le> d \<and> d \<le> 9"
proof (induction n arbitrary: r)
  case 0
  then show ?case by simp
next
  case (Suc n)
  obtain ds r' where dr: "draw_digits n (next_rng r) = (ds, r')" by (cases "draw_digits n (next_rng r)")
  with Suc.prems have "d = randint_value 0 9 (r 0) \<or> d \<in> set ds" by simp
  moreover have "0 \<le> randint_value 0 9 (r 0) \<and> randint_value 0 9 (r 0) \<le> 9"
    by (simp add: randint_value_def)
  moreover have "d \<in> set ds \<Longrightarrow> 0 \<le> d \<and> d \<le> 9"
    using Suc.IH[of "next_rng r"] dr by simp
  ultimately show ?case by blast
qed

lemma odd_choice: "v = [1, 3, 5, 7, 9::int] ! (k mod 5) \<Longrightarrow> v mod 2 = 1 \<and> 0 \<le> v \<and> v \<le> 9"
proof -
  assume v: "v = [1, 3, 5, 7, 9::int] ! (k mod 5)"
  have "k mod 5 < 5" by simp
  then consider "k mod 5 = 0" | "k mod 5 = 1" | "k mod 5 = 2" | "k mod 5 = 3" | "k mod 5 = 4"
    by linarith
  then show ?thesis using v by cases simp_all
qed

text \<open>
  Claim C6. For a configuration with \<open>selective_recall\<close> set and a sequence length of at
  least 1, the stimulus generator returns, for every outcome of the random draws, a sequence
  of exactly that length whose digits lie in 0..9 and of which at least one is odd.
\<close>

theorem generate_sequence_selective_has_odd:
  assumes sel: "selective_recall config" and len: "1 \<le> sequence_length config"
  shows "\<exists>sq r'. generate_sequence config r = Inr (sq, r') \<and>
           length sq = nat (sequence_length config) \<and>
           (\<forall>d\<in>set sq. 0 \<le> d \<and> d \<le> 9) \<and>
           (\<exists>d\<in>set sq. d mod 2 = 1)"
proof -
  let ?n = "nat (sequence_length config)"
  obtain sq r1 where dr: "draw_digits ?n r = (sq, r1)" by (cases "draw_digits ?n r")
  have lsq: "length sq = ?n" using draw_digits_length[of ?n r] dr by simp
  have rsq: "\<forall>d\<in>set sq. 0 \<le> d \<and> d \<le> 9" using draw_digits_range[of _ ?n r] dr by simp
  show ?thesis
  proof (cases "list_ex (\<lambda>d. d mod 2 = 1) sq")
    case True
    then have "generate_sequence config r = Inr (sq, r1)"
      by (simp add: generate_sequence_def dr Let_def)
    moreover have "\<exists>d\<in>set sq. d mod 2 = 1" using True by (simp add: list_ex_iff)
    ultimately show ?thesis using lsq rsq by blast
  next
    case False
    let ?v = "[1, 3, 5, 7, 9::int] ! (r1 0 mod 5)"
    let ?r2 = "next_rng r1"
    let ?i = "randint_value 0 (sequence_length config - 1) (?r2 0)"
    have ieq: "?i = int (?r2 0 mod nat (sequence_length config))"
      by (simp add: randint_value_def)
    have "?r2 0 mod nat (sequence_length config) < nat (sequence_length config)"
      using len by simp
    then have i: "0 \<le> ?i \<and> ?i < sequence_length config"
      unfolding ieq by (simp add: zless_nat_eq_int_zless)
    have g: "generate_sequence config r = Inr (sq[nat ?i := ?v], next_rng ?r2)"
      using False sel len
      by (simp add: generate_sequence_def dr Let_def choice_def randint_def)
    have v: "?v mod 2 = 1 \<and> 0 \<le> ?v \<and> ?v \<le> 9" using odd_choice[of ?v "r1 0"] by simp
    have inb: "nat ?i < length sq" using i lsq by (simp add: nat_less_iff)
    have mem: "?v \<in> set (sq[nat ?i := ?v])" using inb by (simp add: set_update_memI)
    have rng: "\<forall>d\<in>set (sq[nat ?i := ?v]). 0 \<le> d \<and> d \<le> 9"
      using rsq v set_update_subset_insert[of sq "nat ?i" ?v] by blast
    show ?thesis using g lsq mem v rng by (intro exI[of _ "sq[nat ?i := ?v]"] exI[of _ "next_rng ?r2"]) auto
  qed
qed

theorem generate_sequence_selective_has_odd_witness:
  "selective_recall selective_config \<and> 1 \<le> sequence_length selective_config \<and>
   (\<exists>sq r'. generate_sequence selective_config (\<lambda>n. 0) = Inr (sq, r') \<and>
      sq = [1, 0, 0, 0, 0] \<and> length sq = 5 \<and> 1 \<in> set sq)"
proof -
  have h1: "selective_recall selective_config" by (simp add: selective_config_def)
  have h2: "1 \<le> sequence_length selective_config" by (simp add: selective_config_def)
  from generate_sequence_selective_has_odd[OF h1 h2, of "\<lambda>n. 0"]
  obtain sq r' where g: "generate_sequence selective_config (\<lambda>n. 0) = Inr (sq, r')"
    and len: "length sq = nat (sequence_length selective_config)"
    by blast
  have rp: "replicate 5 (0::int) = [0, 0, 0, 0, 0]" by code_simp
  have ev: "generate_sequence selective_config (\<lambda>n. 0) = Inr ([1, 0, 0, 0, 0], \<lambda>n. 0)"
    by (simp add: generate_sequence_def selective_config_def draw_digits_zero_stream rp
        next_rng_const randint_value_def choice_def randint_def)
  from g ev have "sq = [1, 0, 0, 0, 0]" by simp
  with g len h1 h2 show ?thesis by (simp add: selective_config_def)
qed

section \<open>Digit span: expected answer\<close>

lemma odd_mod2: "(\<lambda>d::int. d mod 2 = 1) = odd"
  by (rule ext) presburger

text \<open>
  Claim C5. The expected answer is derived by exactly one rule, in the strict priority
  backward (reversal), selective recall (the odd digits in original order), ordering
  (ascending sort), otherwise the sequence itself; with no flag set the expected answer is the
  stimulus.
\<close>

theorem get_expected_answer_priority:
  "get_expected_answer sq config = expected_answer_spec sq config \<and>
   (\<not> backward config \<and> \<not> selective_recall config \<and> \<not> ordering config
      \<longrightarrow> get_expected_answer sq config = sq)"
  by (simp add: get_expected_answer_def expected_answer_spec_def spec_rule_def odd_mod2)

theorem get_expected_answer_priority_witness:
  "\<not> backward forward_config \<and> \<not> selective_recall forward_config \<and>
   \<not> ordering forward_config \<and>
   get_expected_answer [3, 1, 2] forward_config = [3, 1, 2] \<and>
   expected_answer_spec [3, 1, 2] forward_config = [3, 1, 2]"
proof -
  have f: "\<not> backward forward_config \<and> \<not> selective_recall forward_config \<and>
           \<not> ordering forward_config"
    by (simp add: forward_config_def)
  from get_expected_answer_priority[of "[3, 1, 2]" forward_config] f
  have "get_expected_answer [3, 1, 2] forward_config = [3, 1, 2]"
    and "get_expected_answer [3, 1, 2] forward_config = expected_answer_spec [3, 1, 2] forward_config"
    by blast+
  then show ?thesis using f by simp
qed

lemma get_expected_answer_backward_first:
  "get_expected_answer [3, 1, 2] (forward_config\<lparr>backward := True, ordering := True\<rparr>) = [2, 1, 3]"
  by (simp add: get_expected_answer_def forward_config_def)

lemma get_expected_answer_odd_digits:
  "get_expected_answer [3, 4, 1, 2, 9] selective_config = [3, 1, 9]"
  by (simp add: get_expected_answer_def selective_config_def)

lemma get_expected_answer_sorted:
  "get_expected_answer [3, 1, 2] (forward_config\<lparr>ordering := True\<rparr>) = [1, 2, 3]"
  by (simp add: get_expected_answer_def forward_config_def)

section \<open>Digit span: answer input\<close>

lemma input_loop_broke:
  "input_loop expected config ui fb es = Some (Broke succ ui') \<Longrightarrow>
     succ \<and> parse_digits ui' = expected"
  by (induction expected config ui fb es rule: input_loop.induct)
     (auto simp add: Let_def split: if_splits)

text \<open>
  Claim C10. Whenever the answer-input loop of the digit span returns, either it reports
  success and the answer it returns is the expected answer (the loop is left normally only
  on a correct submission), or it reports failure (menu return or cancellation) with
  response time 0 and an empty answer.
\<close>

theorem ds_get_user_response_failure_is_empty:
  "ds_get_user_response sq config events elapsed = Some (succ, rt, ua, wm_exit) \<Longrightarrow>
     (succ \<longrightarrow> ua = get_expected_answer sq config) \<and>
     (\<not> succ \<longrightarrow> rt = 0 \<and> ua = [])"
  by (auto simp add: ds_get_user_response_def Let_def
      split: option.splits loop_exit.splits dest: input_loop_broke)

theorem ds_get_user_response_failure_is_empty_witness:
  "ds_get_user_response [1, 2, 3] forward_config
      [Key 49, Key 51, Key 10, Key 263, Key 50, Key 51, Key 10] 5
     = Some (True, 5, [1, 2, 3], False) \<and>
   [1, 2, 3] = get_expected_answer [1, 2, 3] forward_config \<and>
   ds_get_user_response [1, 2, 3] forward_config [Key 49, Key 51, Key 10, Key 109] 5
     = Some (False, 0, [], False)"
proof -
  have a: "ds_get_user_response [1, 2, 3] forward_config
      [Key 49, Key 51, Key 10, Key 263, Key 50, Key 51, Key 10] 5
     = Some (True, 5, [1, 2, 3], False)"
    by (simp add: ds_get_user_response_def get_expected_answer_def forward_config_def
        KEY_ENTER_def KEY_BACKSPACE_def parse_digits_def is_digit_def digit_value_def
        digit_char_def validate_user_answer_def Let_def)
  have b: "ds_get_user_response [1, 2, 3] forward_config [Key 49, Key 51, Key 10, Key 109] 5
     = Some (False, 0, [], False)"
    by (simp add: ds_get_user_response_def get_expected_answer_def forward_config_def
        KEY_ENTER_def KEY_BACKSPACE_def parse_digits_def is_digit_def digit_value_def
        digit_char_def validate_user_answer_def Let_def)
  from ds_get_user_response_failure_is_empty[OF a]
  have "[1, 2, 3] = get_expected_answer [1, 2, 3] forward_config" by simp
  with a b show ?thesis by simp
qed

section \<open>Spatial pattern: parameter and stimulus generators\<close>

lemma randint_value_range:
  "a \<le> b \<Longrightarrow> a \<le> randint_value a b x \<and> randint_value a b x \<le> b"
proof -
  assume ab: "a \<le> b"
  then have "x mod nat (b - a + 1) < nat (b - a + 1)" by simp
  then have "int (x mod nat (b - a + 1)) < b - a + 1"
    by (simp add: zless_nat_eq_int_zless)
  then show ?thesis by (simp add: randint_value_def)
qed

lemma sample_from_props:
  "k \<le> length xs \<Longrightarrow> distinct xs \<Longrightarrow>
     length (fst (sample_from xs k r)) = k \<and>
     distinct (fst (sample_from xs k r)) \<and> set (fst (sample_from xs k r)) \<subseteq> set xs"
proof (induction k arbitrary: xs r)
  case 0
  then show ?case by simp
next
  case (Suc k)
  define i where "i = r 0 mod length xs"
  define a where "a = take i xs"
  define b where "b = drop (Suc i) xs"
  define x where "x = xs ! i"
  have pos: "0 < length xs" using Suc.prems by (cases xs) auto
  then have i: "i < length xs" by (simp add: i_def)
  have xs: "xs = a @ x # b"
    unfolding a_def b_def x_def using i by (rule id_take_nth_drop)
  have dab: "distinct (a @ b)" and notin: "x \<notin> set (a @ b)"
    using Suc.prems(2) unfolding xs by auto
  have k: "k \<le> length (a @ b)" using Suc.prems(1) unfolding xs by simp
  obtain ys r' where sf: "sample_from (a @ b) k (next_rng r) = (ys, r')"
    by (cases "sample_from (a @ b) k (next_rng r)")
  from Suc.IH[OF k dab, of "next_rng r"] sf
  have ih: "length ys = k" "distinct ys" "set ys \<subseteq> set (a @ b)" by simp_all
  have "sample_from xs (Suc k) r = (x # ys, r')"
    using sf by (simp add: Let_def i_def[symmetric] a_def[symmetric] b_def[symmetric] x_def[symmetric])
  moreover have "set (a @ b) \<subseteq> set xs" "x \<in> set xs" unfolding xs by auto
  ultimately show ?case using ih notin by auto
qed

lemma choose_highlights_ok:
  "types \<noteq> [] \<Longrightarrow> \<exists>hl' r'. choose_highlights ps types hl r = Inr (hl', r')"
  by (induction ps arbitrary: hl r) (simp_all add: choice_def)

lemma all_positions_props:
  "length (List.product [0..g - 1] [0..g - 1]) = nat g * nat g"
  "distinct (List.product [0..g - 1] [0..g - 1])"
  by (simp_all add: distinct_product)

lemma generate_pattern_ok:
  assumes g: "0 \<le> grid_size config"
    and lo: "0 \<le> pattern_size config"
    and hi: "pattern_size config \<le> grid_size config * grid_size config - 1"
  shows "\<exists>pat hl r'. generate_pattern config r = Inr (pat, hl, r') \<and>
           length pat = nat (pattern_size config) \<and> distinct pat \<and> sorted pat"
proof -
  let ?all = "List.product [0..grid_size config - 1] [0..grid_size config - 1]"
  have len: "int (length ?all) = grid_size config * grid_size config"
    using g by (simp add: all_positions_props)
  then have fits: "pattern_size config \<le> int (length ?all)" using hi by simp
  have kn: "nat (pattern_size config) \<le> length ?all"
    unfolding nat_le_iff by (rule fits)
  obtain picked r1 where sf: "sample_from ?all (nat (pattern_size config)) r = (picked, r1)"
    by (cases "sample_from ?all (nat (pattern_size config)) r")
  have sm: "sample ?all (pattern_size config) r = Inr (picked, r1)"
    using lo fits sf by (simp add: sample_def)
  from sample_from_props[OF kn all_positions_props(2), of r] sf
  have pk: "length picked = nat (pattern_size config)" "distinct picked" by simp_all
  have sp: "length (sort picked) = nat (pattern_size config)" "distinct (sort picked)"
    "sorted (sort picked)"
    using pk by simp_all
  show ?thesis
  proof (cases "use_multiple_highlights config")
    case False
    then show ?thesis using sm sp by (simp add: generate_pattern_def Let_def)
  next
    case True
    obtain types r2 where st: "sample_from HIGHLIGHT_PATTERNS 3 r1 = (types, r2)"
      by (cases "sample_from HIGHLIGHT_PATTERNS 3 r1")
    have "length (fst (sample_from HIGHLIGHT_PATTERNS 3 r1)) = 3"
      by (rule sample_from_props[THEN conjunct1]) (simp_all add: HIGHLIGHT_PATTERNS_def)
    then have tne: "types \<noteq> []" using st by auto
    have s3: "sample HIGHLIGHT_PATTERNS (min 3 (int (length HIGHLIGHT_PATTERNS))) r1 = Inr (types, r2)"
      using st by (simp add: sample_def HIGHLIGHT_PATTERNS_def)
    from choose_highlights_ok[OF tne, of "sort picked" Map.empty r2]
    obtain hl r3 where "choose_highlights (sort picked) types Map.empty r2 = Inr (hl, r3)"
      by blast
    then show ?thesis using True sm s3 sp by (simp add: generate_pattern_def Let_def)
  qed
qed

lemma sp_config_from_meta_shape:
  assumes en: "every_n = (case grid_size_increase_every_n_levels meta of None \<Rightarrow> 2 | Some n \<Rightarrow> n)"
    and gs: "gs = grid_size_base meta + min ((lvl - 1) div every_n)
                                          (max_grid_size meta - grid_size_base meta)"
    and lo: "lo = min_cells_level_1 meta + (lvl - 1) * max_additional_cells_per_level meta"
    and hi: "hi = min (lo + max_additional_cells_per_level meta) (gs * gs - 1)"
    and nz: "every_n \<noteq> 0"
    and le: "lo \<le> hi"
  shows "\<exists>c r1. sp_config_from_meta meta lvl r = Inr (c, r1) \<and>
           grid_size c = gs \<and> lo \<le> pattern_size c \<and> pattern_size c \<le> hi"
proof -
  have rg: "lo \<le> randint_value lo hi (r 0) \<and> randint_value lo hi (r 0) \<le> hi"
    using le by (rule randint_value_range)
  have ri: "randint lo hi r = Inr (randint_value lo hi (r 0), next_rng r)"
    using le by (simp add: randint_def)
  have "\<exists>c r1. sp_config_from_meta meta lvl r = Inr (c, r1) \<and>
           grid_size c = gs \<and> pattern_size c = randint_value lo hi (r 0)"
    using nz ri unfolding en gs lo hi
    by (simp add: sp_config_from_meta_def Let_def case_prod_beta split: if_splits)
  then show ?thesis using rg by auto
qed

lemma builtin_config_bounds:
  assumes "1 \<le> lvl" "lvl \<le> 10"
  shows "\<exists>c r1. sp_config_from_meta builtin_spatial_meta lvl r = Inr (c, r1) \<and>
           3 \<le> grid_size c \<and> 1 \<le> pattern_size c \<and>
           pattern_size c \<le> grid_size c * grid_size c - 1"
proof -
  define g where "g = 3 + min ((lvl - 1) div 2) 4"
  define lo where "lo = 3 + (lvl - 1) * 2"
  define hi where "hi = min (lo + 2) (g * g - 1)"
  have en: "(2::int) = (case grid_size_increase_every_n_levels builtin_spatial_meta of
                          None \<Rightarrow> 2 | Some n \<Rightarrow> n)"
    by (simp add: builtin_spatial_meta_def)
  have g_eq: "g = grid_size_base builtin_spatial_meta + min ((lvl - 1) div 2)
       (max_grid_size builtin_spatial_meta - grid_size_base builtin_spatial_meta)"
    by (simp add: builtin_spatial_meta_def g_def)
  have lo_eq: "lo = min_cells_level_1 builtin_spatial_meta
                  + (lvl - 1) * max_additional_cells_per_level builtin_spatial_meta"
    by (simp add: builtin_spatial_meta_def lo_def)
  have hi_eq: "hi = min (lo + max_additional_cells_per_level builtin_spatial_meta) (g * g - 1)"
    by (simp add: builtin_spatial_meta_def hi_def)
  have nz: "(2::int) \<noteq> 0" by simp
  from assms have "lvl = 1 \<or> lvl = 2 \<or> lvl = 3 \<or> lvl = 4 \<or> lvl = 5 \<or> lvl = 6
      \<or> lvl = 7 \<or> lvl = 8 \<or> lvl = 9 \<or> lvl = 10" by arith
  then have le: "lo \<le> hi"
    unfolding hi_def lo_def g_def by (elim disjE) simp_all
  have g3: "3 \<le> g" using assms unfolding g_def by simp
  have lo1: "1 \<le> lo" using assms unfolding lo_def by simp
  have hig: "hi \<le> g * g - 1" unfolding hi_def by simp
  from sp_config_from_meta_shape[OF en g_eq lo_eq hi_eq nz le, of r]
  obtain c r1 where "sp_config_from_meta builtin_spatial_meta lvl r = Inr (c, r1)"
    "grid_size c = g" "lo \<le> pattern_size c" "pattern_size c \<le> hi" by blast
  then show ?thesis using g3 lo1 hig by (intro exI[of _ c] exI[of _ r1]) auto
qed

text \<open>
  Claim C7. With the built-in spatial meta-parameters and a level in 1..10, the spatial
  parameter generator returns, for every outcome of the random draws, a configuration with
  \<open>1 \<le> pattern_size \<le> grid_size\<^sup>2 - 1\<close>; hence the stimulus generator, whatever its own
  draws, never fails on it (\<open>random.sample\<close> does not raise) and returns \<open>pattern_size\<close>
  distinct cells.
\<close>

theorem sp_generated_pattern_size_fits:
  assumes lv: "1 \<le> lvl" "lvl \<le> 10"
    and ld: "fst (sp_load_settings s) = Inr d"
    and mp: "sp_meta_parameters d = Inr builtin_spatial_meta"
  shows "\<exists>c r1 s1. sp_generate_next_challenge_config s lvl r = (Inr (c, r1), s1) \<and>
           1 \<le> pattern_size c \<and> pattern_size c \<le> grid_size c * grid_size c - 1 \<and>
           (\<forall>r'. \<exists>pat hl r2. generate_pattern c r' = Inr (pat, hl, r2) \<and>
                   length pat = nat (pattern_size c) \<and> distinct pat)"
proof -
  from builtin_config_bounds[OF lv, of r]
  obtain c r1 where c: "sp_config_from_meta builtin_spatial_meta lvl r = Inr (c, r1)"
    and b: "3 \<le> grid_size c" "1 \<le> pattern_size c"
      "pattern_size c \<le> grid_size c * grid_size c - 1" by blast
  obtain s1 where s1: "sp_load_settings s = (Inr d, s1)"
    using ld by (cases "sp_load_settings s") simp
  have gen: "sp_generate_next_challenge_config s lvl r = (Inr (c, r1), s1)"
    by (simp add: sp_generate_next_challenge_config_def s1 mp c)
  have pat: "\<exists>pat hl r2. generate_pattern c r' = Inr (pat, hl, r2) \<and>
                   length pat = nat (pattern_size c) \<and> distinct pat" for r'
    using generate_pattern_ok[of c r'] b by auto
  show ?thesis using gen b pat by blast
qed

theorem sp_generated_pattern_size_fits_witness:
  "(1::int) \<le> 10 \<and>
   sp_meta_parameters (SettingsDoc \<lparr>challenges_per_session = 10, current_user = ''default'',
       digit_span_section = None, spatial_pattern_section = Some builtin_spatial_meta\<rparr>)
     = Inr builtin_spatial_meta \<and>
   (\<exists>c r1 s1. sp_generate_next_challenge_config fresh_store 10 (\<lambda>n. 7) = (Inr (c, r1), s1) \<and>
      grid_size c = 7 \<and> pattern_size c = 22 \<and>
      (\<exists>pat hl r2. generate_pattern c r1 = Inr (pat, hl, r2) \<and> length pat = 22))"
proof -
  let ?d = "SettingsDoc \<lparr>challenges_per_session = 10, current_user = ''default'',
       digit_span_section = None, spatial_pattern_section = Some builtin_spatial_meta\<rparr>"
  have l1: "(1::int) \<le> 10" by simp
  have ld: "fst (sp_load_settings fresh_store) = Inr ?d"
    by (simp add: sp_load_settings_def load_json_file_def write_json_def fresh_store_def)
  have mp: "sp_meta_parameters ?d = Inr builtin_spatial_meta"
    by (simp add: sp_meta_parameters_def)
  from sp_generated_pattern_size_fits[OF l1 order_refl ld mp, of "\<lambda>n. 7"]
  obtain c r1 s1 where g: "sp_generate_next_challenge_config fresh_store 10 (\<lambda>n. 7) = (Inr (c, r1), s1)"
    and p: "\<forall>r'. \<exists>pat hl r2. generate_pattern c r' = Inr (pat, hl, r2) \<and>
                   length pat = nat (pattern_size c) \<and> distinct pat"
    by blast
  obtain s0 where s0: "sp_load_settings fresh_store = (Inr ?d, s0)"
    using ld by (cases "sp_load_settings fresh_store") simp
  have "\<exists>c' r'. sp_config_from_meta builtin_spatial_meta 10 (\<lambda>n. 7) = Inr (c', r') \<and>
           grid_size c' = 7 \<and> pattern_size c' = 22"
    by (simp add: sp_config_from_meta_def builtin_spatial_meta_def randint_def randint_value_def
        Let_def case_prod_beta)
  then have v: "grid_size c = 7" "pattern_size c = 22"
    using g by (auto simp add: sp_generate_next_challenge_config_def s0 mp)
  from p v obtain pat hl r2 where "generate_pattern c r1 = Inr (pat, hl, r2)" "length pat = 22"
    by (metis nat_numeral)
  with g v l1 mp show ?thesis by blast
qed

section \<open>Grading\<close>

lemma sort_eq_iff_mset: "sort xs = sort ys \<longleftrightarrow> mset xs = mset ys"
proof
  assume "sort xs = sort ys"
  then have "mset (sort xs) = mset (sort ys)" by simp
  then show "mset xs = mset ys" by simp
next
  assume "mset xs = mset ys"
  then have "mset (sort ys) = mset xs" by simp
  then show "sort xs = sort ys" by (rule properties_for_sort) simp
qed

lemma correct_positions_card:
  "length ua = length ex \<Longrightarrow>
   length (filter (\<lambda>(u, e). u = e) (zip ua ex)) = card {i. i < length ex \<and> ua ! i = ex ! i}"
proof -
  assume l: "length ua = length ex"
  have "{i. i < length (zip ua ex) \<and> (\<lambda>(u, e). u = e) (zip ua ex ! i)}
        = {i. i < length ex \<and> ua ! i = ex ! i}"
    using l by auto
  then show ?thesis by (simp add: length_filter_conv_card)
qed

lemma select_loop_result:
  "distinct sel0 \<Longrightarrow>
   select_loop pattern config elapsed cur sel0 es = Some (succ, rt, sel, ex) \<Longrightarrow>
   (\<not> succ \<and> rt = 0 \<and> sel = []) \<or> (distinct sel \<and> succ = (sort sel = sort pattern))"
proof (induction es arbitrary: cur sel0)
  case Nil
  then show ?case by simp
next
  case (Cons e es)
  show ?case
  proof (cases e)
    case Interrupt
    then show ?thesis using Cons.prems by simp
  next
    case (Key k)
    let ?toggled = "if cur \<in> set sel0 then remove1 cur sel0
           else if int (length sel0) < pattern_size config then sel0 @ [cur] else sel0"
    have dt: "distinct ?toggled" using Cons.prems(1) by simp
    consider (ret) "k = 3 \<or> k \<in> {109, 77}"
      | (submit) "\<not> (k = 3 \<or> k \<in> {109, 77})" "k \<in> {115, 83, KEY_ENTER, 10, 13}"
      | (toggle) "\<not> (k = 3 \<or> k \<in> {109, 77})" "k \<notin> {115, 83, KEY_ENTER, 10, 13}" "k = 32"
      | (move) "\<not> (k = 3 \<or> k \<in> {109, 77})" "k \<notin> {115, 83, KEY_ENTER, 10, 13}" "k \<noteq> 32"
      by blast
    then show ?thesis
    proof cases
      case ret
      then show ?thesis using Cons.prems(2) Key by auto
    next
      case submit
      then show ?thesis using Cons.prems Key by auto
    next
      case toggle
      then have "select_loop pattern config elapsed cur ?toggled es = Some (succ, rt, sel, ex)"
        using Cons.prems(2) Key by simp
      from Cons.IH[OF dt this] show ?thesis .
    next
      case move
      then obtain cur' where "select_loop pattern config elapsed cur' sel0 es = Some (succ, rt, sel, ex)"
        using Cons.prems(2) Key by (simp split: if_splits)
      from Cons.IH[OF Cons.prems(1) this] show ?thesis .
    qed
  qed
qed

lemma select_loop_grades_by_set:
  assumes "distinct pattern" "pattern \<noteq> []"
    and "select_loop pattern config elapsed cur [] es = Some (succ, rt, sel, ex)"
  shows "succ \<longleftrightarrow> set sel = set pattern"
proof -
  from select_loop_result[OF _ assms(3)]
  have "(\<not> succ \<and> rt = 0 \<and> sel = []) \<or> (distinct sel \<and> succ = (sort sel = sort pattern))"
    by simp
  then show ?thesis
  proof
    assume "\<not> succ \<and> rt = 0 \<and> sel = []"
    then show ?thesis using assms(2) by auto
  next
    assume a: "distinct sel \<and> succ = (sort sel = sort pattern)"
    then have "succ \<longleftrightarrow> mset sel = mset pattern" by (simp add: sort_eq_iff_mset)
    then show ?thesis using a assms(1) by (simp add: set_eq_iff_mset_eq_distinct)
  qed
qed

text \<open>
  Claim C3. Grading succeeds exactly on equality: the digit-span feedback is \<open>Correct!\<close> iff
  the answer equals the expected list (order-sensitive), and a submitted spatial selection
  succeeds iff its set of cells is that of the (duplicate-free, non-empty) pattern. A wrong
  digit answer gets exactly one message, by priority: the length message when the lengths
  differ; else the wrong-order message when both lists have the same multiset of digits and
  the \<open>ordering\<close> flag is not set; else the generic message. The last two carry the number of
  positions that agree index by index.
\<close>

theorem grading_and_feedback:
  "(validate_user_answer ua expected config = ''Correct!'' \<longleftrightarrow> ua = expected) \<and>
   (ua \<noteq> expected \<longrightarrow>
      validate_user_answer ua expected config =
        (if length ua \<noteq> length expected then
           ''Incorrect length. Expected '' @ str_nat (length expected) @ '' digits, got ''
             @ str_nat (length ua) @ ''.''
         else if mset ua = mset expected \<and> \<not> ordering config then
           ''All digits correct but in wrong order. ''
             @ str_nat (card {i. i < length expected \<and> ua ! i = expected ! i}) @ ''/''
             @ str_nat (length expected) @ '' in correct position.''
         else
           ''Partially correct. ''
             @ str_nat (card {i. i < length expected \<and> ua ! i = expected ! i}) @ ''/''
             @ str_nat (length expected) @ '' digits in correct position.'')) \<and>
   (distinct pattern \<and> pattern \<noteq> [] \<and>
    sp_get_user_response pattern sconfig events elapsed = Some (succ, rt, sel, wm_exit)
      \<longrightarrow> (succ \<longleftrightarrow> set sel = set pattern))"
proof (intro conjI impI)
  show "validate_user_answer ua expected config = ''Correct!'' \<longleftrightarrow> ua = expected"
    by (simp add: validate_user_answer_def Let_def)
next
  assume ne: "ua \<noteq> expected"
  show "validate_user_answer ua expected config =
        (if length ua \<noteq> length expected then
           ''Incorrect length. Expected '' @ str_nat (length expected) @ '' digits, got ''
             @ str_nat (length ua) @ ''.''
         else if mset ua = mset expected \<and> \<not> ordering config then
           ''All digits correct but in wrong order. ''
             @ str_nat (card {i. i < length expected \<and> ua ! i = expected ! i}) @ ''/''
             @ str_nat (length expected) @ '' in correct position.''
         else
           ''Partially correct. ''
             @ str_nat (card {i. i < length expected \<and> ua ! i = expected ! i}) @ ''/''
             @ str_nat (length expected) @ '' digits in correct position.'')"
  proof (cases "length ua = length expected")
    case False
    then show ?thesis using ne by (simp add: validate_user_answer_def)
  next
    case True
    then show ?thesis using ne
      by (simp add: validate_user_answer_def Let_def sort_eq_iff_mset
          correct_positions_card[OF True])
  qed
next
  assume a: "distinct pattern \<and> pattern \<noteq> [] \<and>
    sp_get_user_response pattern sconfig events elapsed = Some (succ, rt, sel, wm_exit)"
  then show "succ \<longleftrightarrow> set sel = set pattern"
    using select_loop_grades_by_set[of pattern sconfig elapsed "(0, 0)" events succ rt sel wm_exit]
    by (simp add: sp_get_user_response_def)
qed

theorem grading_and_feedback_witness:
  "[3, 2, 1] \<noteq> [1, 2, 3::int] \<and>
   validate_user_answer [3, 2, 1] [1, 2, 3] forward_config =
     ''All digits correct but in wrong order. 1/3 in correct position.'' \<and>
   validate_user_answer [1, 2] [1, 2, 3] forward_config =
     ''Incorrect length. Expected 3 digits, got 2.'' \<and>
   validate_user_answer [1, 2, 4] [1, 2, 3] forward_config =
     ''Partially correct. 2/3 digits in correct position.'' \<and>
   validate_user_answer [3, 2, 1] [1, 2, 3] forward_config \<noteq> ''Correct!'' \<and>
   distinct ([(0, 0), (1, 1)] :: (int \<times> int) list) \<and>
   sp_get_user_response [(0, 0), (1, 1)] small_grid_config
      [Key 106, Key 108, Key 32, Key 107, Key 104, Key 32, Key 10] 4
     = Some (True, 4, [(1, 1), (0, 0)], False) \<and>
   set ([(1, 1), (0, 0)] :: (int \<times> int) list) = set ([(0, 0), (1, 1)] :: (int \<times> int) list)"
proof -
  have ne: "[3, 2, 1] \<noteq> [1, 2, 3::int]" by simp
  have v1: "validate_user_answer [3, 2, 1] [1, 2, 3] forward_config =
     ''All digits correct but in wrong order. 1/3 in correct position.''"
    by (simp add: validate_user_answer_def forward_config_def str_nat.simps digit_char_def)
  have v2: "validate_user_answer [1, 2] [1, 2, 3] forward_config =
     ''Incorrect length. Expected 3 digits, got 2.''"
    by (simp add: validate_user_answer_def forward_config_def str_nat.simps digit_char_def)
  have v3: "validate_user_answer [1, 2, 4] [1, 2, 3] forward_config =
     ''Partially correct. 2/3 digits in correct position.''"
    by (simp add: validate_user_answer_def forward_config_def str_nat.simps digit_char_def)
  have d: "distinct ([(0, 0), (1, 1)] :: (int \<times> int) list)" by simp
  have r: "sp_get_user_response [(0, 0), (1, 1)] small_grid_config
      [Key 106, Key 108, Key 32, Key 107, Key 104, Key 32, Key 10] 4
     = Some (sort ([(1, 1), (0, 0)] :: (int \<times> int) list) = sort ([(0, 0), (1, 1)] :: (int \<times> int) list), 4, [(1, 1), (0, 0)], False)"
    by (simp add: sp_get_user_response_def small_grid_config_def KEY_ENTER_def KEY_UP_def
        KEY_DOWN_def KEY_LEFT_def KEY_RIGHT_def)
  note t = grading_and_feedback[of "[3, 2, 1]" "[1, 2, 3]" forward_config
      "[(0, 0), (1, 1)]" small_grid_config
      "[Key 106, Key 108, Key 32, Key 107, Key 104, Key 32, Key 10]" 4
      "sort ([(1, 1), (0, 0)] :: (int \<times> int) list) = sort ([(0, 0), (1, 1)] :: (int \<times> int) list)" 4 "[(1, 1), (0, 0)]" False]
  from t ne have nc: "validate_user_answer [3, 2, 1] [1, 2, 3] forward_config \<noteq> ''Correct!''"
    by blast
  from t d r have "(sort ([(1, 1), (0, 0)] :: (int \<times> int) list) = sort ([(0, 0), (1, 1)] :: (int \<times> int) list))
      \<longleftrightarrow> set ([(1, 1), (0, 0)] :: (int \<times> int) list) = set ([(0, 0), (1, 1)] :: (int \<times> int) list)"
    by blast
  moreover have s: "set ([(1, 1), (0, 0)] :: (int \<times> int) list) = set ([(0, 0), (1, 1)] :: (int \<times> int) list)" by auto
  ultimately have "sort ([(1, 1), (0, 0)] :: (int \<times> int) list) = sort ([(0, 0), (1, 1)] :: (int \<times> int) list)" by blast
  with r have r': "sp_get_user_response [(0, 0), (1, 1)] small_grid_config
      [Key 106, Key 108, Key 32, Key 107, Key 104, Key 32, Key 10] 4
     = Some (True, 4, [(1, 1), (0, 0)], False)" by simp
  from ne v1 v2 v3 nc d r' s show ?thesis by blast
qed

section \<open>Session continuation\<close>

lemma random_games_length:
  "random_games category k r = Inr (gs, r') \<Longrightarrow> length gs = k"
proof (induction k arbitrary: r gs)
  case 0
  then show ?case by simp
next
  case (Suc k)
  from Suc.prems obtain g r1 gs' where "choice category r = Inr (g, r1)"
    and rg: "random_games category k r1 = Inr (gs', r')" and gs: "gs = g # gs'"
    by (auto split: sum.splits)
  from Suc.IH[OF rg] gs show ?case by simp
qed

lemma more_challenges_four:
  "more_challenges st current_game all_games s1 s2 r = Inr (gs, r') \<Longrightarrow>
     length gs = 4 \<and> (st = Single \<longrightarrow> gs = replicate 4 current_game)"
  by (cases st) (auto simp add: more_challenges_def dest: random_games_length)

lemma decision_loop_outcome:
  "decision_loop queue st current_game all_games s1 s2 es r = Some (Inr (c, queue', x), r') \<Longrightarrow>
     (if c then \<exists>gs. queue' = queue @ gs \<and> length gs = 4 \<and>
                      (st = Single \<longrightarrow> gs = replicate 4 current_game)
      else queue' = queue)"
proof (induction es)
  case Nil
  then show ?case by simp
next
  case (Cons e es)
  show ?case
  proof (cases e)
    case Interrupt
    then show ?thesis using Cons.prems by simp
  next
    case (Key k)
    consider (yes) "k \<in> {121, 89}" | (ret) "k \<notin> {121, 89}" "k = 3 \<or> k \<in> {113, 81, 109, 77, 110, 78, 112, 80}"
      | (other) "k \<notin> {121, 89}" "\<not> (k = 3 \<or> k \<in> {113, 81, 109, 77, 110, 78, 112, 80})"
      by blast
    then show ?thesis
    proof cases
      case yes
      then obtain gs where "more_challenges st current_game all_games s1 s2 r = Inr (gs, r')"
        and "c" and "queue' = queue @ gs"
        using Cons.prems Key by (auto split: sum.splits)
      then show ?thesis using more_challenges_four by auto
    next
      case ret
      then show ?thesis using Cons.prems Key by (auto split: if_splits)
    next
      case other
      then have "decision_loop queue st current_game all_games s1 s2 es r = Some (Inr (c, queue', x), r')"
        using Cons.prems Key by simp
      then show ?thesis by (rule Cons.IH)
    qed
  qed
qed

text \<open>
  Claim C8, as amended. After a round the scheduler shows the continuation decision exactly
  when the queue is empty, whatever the number of challenges completed (the count only
  selects the wording of the prompt); while challenges remain it shows the any-key prompt and
  leaves the queue as it is. On the extend outcome exactly 4 challenges are appended to the
  back of the queue; in a single-game session (the game played is one of the games on offer)
  they are four copies of that game.
\<close>

theorem continuation_decision_iff_queue_empty:
  "(fst (handle_session_continuation q n cur all_games s1 s2 es r)
      \<in> {SessionComplete, ContinuePlaying} \<longleftrightarrow> q = []) \<and>
   (snd (handle_session_continuation q n cur all_games s1 s2 es r) = Some (Inr (c, q', x), r')
      \<longrightarrow> (if c \<and> q = []
           then \<exists>gs. q' = q @ gs \<and> length gs = 4 \<and>
                     (cur \<in> set all_games \<longrightarrow> gs = replicate 4 cur)
           else q' = q))"
proof (intro conjI impI)
  show "fst (handle_session_continuation q n cur all_games s1 s2 es r)
      \<in> {SessionComplete, ContinuePlaying} \<longleftrightarrow> q = []"
    by (simp add: handle_session_continuation_def Let_def)
next
  assume a: "snd (handle_session_continuation q n cur all_games s1 s2 es r)
               = Some (Inr (c, q', x), r')"
  show "if c \<and> q = []
           then \<exists>gs. q' = q @ gs \<and> length gs = 4 \<and>
                     (cur \<in> set all_games \<longrightarrow> gs = replicate 4 cur)
           else q' = q"
  proof (cases "q = []")
    case True
    let ?st = "session_type_of cur all_games s1 s2"
    from a True have "decision_loop q ?st cur all_games s1 s2 es r = Some (Inr (c, q', x), r')"
      by (simp add: handle_session_continuation_def Let_def split: if_splits)
    from decision_loop_outcome[OF this] True show ?thesis
      by (auto simp add: session_type_of_def)
  next
    case False
    with a show ?thesis
      by (auto simp add: handle_session_continuation_def Let_def
          split: list.splits event.splits if_splits)
  qed
qed

theorem continuation_decision_iff_queue_empty_witness:
  "handle_session_continuation [] 10 ''digit_span'' ALL_GAMES STRATEGY_1_GAMES STRATEGY_2_GAMES
      [Key 121] (\<lambda>n. 1)
     = (SessionComplete,
        Some (Inr (True, [''digit_span'', ''digit_span'', ''digit_span'', ''digit_span''], False),
              \<lambda>n. 1)) \<and>
   ''digit_span'' \<in> set ALL_GAMES"
proof -
  have m: "''digit_span'' \<in> set ALL_GAMES"
    by (simp add: ALL_GAMES_def STRATEGY_1_GAMES_def)
  obtain p out where h: "handle_session_continuation [] 10 ''digit_span'' ALL_GAMES
      STRATEGY_1_GAMES STRATEGY_2_GAMES [Key 121] (\<lambda>n. 1) = (p, out)"
    by (cases "handle_session_continuation [] 10 ''digit_span'' ALL_GAMES
      STRATEGY_1_GAMES STRATEGY_2_GAMES [Key 121] (\<lambda>n. 1)")
  have p: "p = SessionComplete"
    using h by (simp add: handle_session_continuation_def Let_def)
  have "\<exists>q'. out = Some (Inr (True, q', False), \<lambda>n. 1)"
    using h m by (auto simp add: handle_session_continuation_def Let_def session_type_of_def
        more_challenges_def)
  then obtain q' where out: "out = Some (Inr (True, q', False), \<lambda>n. 1)" by blast
  from continuation_decision_iff_queue_empty[of "[]" 10 "''digit_span''" ALL_GAMES
      STRATEGY_1_GAMES STRATEGY_2_GAMES "[Key 121]" "\<lambda>n. 1" True q' False "\<lambda>n. 1"] h out m
  have "q' = replicate 4 ''digit_span''" by simp
  then have "q' = [''digit_span'', ''digit_span'', ''digit_span'', ''digit_span'']"
    by (simp add: eval_nat_numeral)
  with h p out m show ?thesis by simp
qed

lemma next_rng_always_one: "next_rng always_one = always_one"
  by (simp add: next_rng_def always_one_def)

lemma yes_keys: "yes_at_every_prompt =
  [[Key 121], [Key 121], [Key 121], [Key 121], [Key 121], [Key 121], [Key 121], [Key 121],
   [Key 121], [Key 121], [Key 121], [Key 121], [Key 121], [Key 121], [Key 121], [Key 121],
   [Key 121], [Key 121], [Key 121], [Key 121]]"
  unfolding yes_at_every_prompt_def by code_simp

lemma ten_games: "replicate 10 ''digit_span'' =
  [''digit_span'', ''digit_span'', ''digit_span'', ''digit_span'', ''digit_span'',
   ''digit_span'', ''digit_span'', ''digit_span'', ''digit_span'', ''digit_span'']"
  by code_simp

lemma four_games: "replicate 4 (g::string) = [g, g, g, g]"
  by (simp add: eval_nat_numeral)

lemma single_session_queue:
  "fst (get_game_for_session fresh_store ''game'' ''digit_span'' ALL_GAMES STRATEGY_1_GAMES
          STRATEGY_2_GAMES always_one) = Inr (replicate 10 ''digit_span'', always_one)"
  by (simp add: get_game_for_session_def load_settings_def load_json_file_def write_json_def
      fresh_store_def)

lemma single_session_trace:
  "session_rounds (replicate 10 ''digit_span'') 0 ALL_GAMES STRATEGY_1_GAMES STRATEGY_2_GAMES
      yes_at_every_prompt always_one =
   [(1, AnyKey), (2, AnyKey), (3, AnyKey), (4, AnyKey), (5, AnyKey), (6, AnyKey), (7, AnyKey),
    (8, AnyKey), (9, AnyKey), (10, SessionComplete), (11, AnyKey), (12, AnyKey), (13, AnyKey),
    (14, ContinuePlaying), (15, AnyKey), (16, AnyKey), (17, AnyKey), (18, ContinuePlaying),
    (19, AnyKey), (20, AnyKey)]"
  unfolding yes_keys ten_games
  by (simp add: handle_session_continuation_def session_type_of_def ALL_GAMES_def
      STRATEGY_1_GAMES_def STRATEGY_2_GAMES_def more_challenges_def four_games Let_def)

lemma random_games_const_prefix:
  "category \<noteq> [] \<Longrightarrow> (\<forall>i<k. r i = v) \<Longrightarrow>
   random_games category k r =
     Inr (replicate k (category ! (v mod length category)), (\<lambda>n. r (n + k)))"
proof (induction k arbitrary: r)
  case 0
  then show ?case by simp
next
  case (Suc k)
  have r0: "r 0 = v" using Suc.prems(2) by simp
  have "\<forall>i<k. next_rng r i = v" using Suc.prems(2) by (simp add: next_rng_def)
  from Suc.IH[OF Suc.prems(1) this]
  have "random_games category k (next_rng r) =
     Inr (replicate k (category ! (v mod length category)), (\<lambda>n. next_rng r (n + k)))" .
  then show ?case using Suc.prems(1) r0 by (simp add: choice_def next_rng_def)
qed

lemma category_session_queue:
  "fst (get_game_for_session fresh_store ''random'' ''strategy1'' ALL_GAMES STRATEGY_1_GAMES
          STRATEGY_2_GAMES zeros_then_ones) = Inr (replicate 10 ''digit_span'', always_one)"
proof -
  have "random_games STRATEGY_1_GAMES 10 zeros_then_ones =
     Inr (replicate 10 (STRATEGY_1_GAMES ! (0 mod length STRATEGY_1_GAMES)),
          (\<lambda>n. zeros_then_ones (n + 10)))"
    by (rule random_games_const_prefix) (simp_all add: STRATEGY_1_GAMES_def zeros_then_ones_def)
  moreover have "(\<lambda>n. zeros_then_ones (n + 10)) = always_one"
    by (simp add: zeros_then_ones_def always_one_def)
  ultimately have "random_games STRATEGY_1_GAMES 10 zeros_then_ones =
     Inr (replicate 10 ''digit_span'', always_one)"
    by (simp add: STRATEGY_1_GAMES_def)
  then show ?thesis
    by (simp add: get_game_for_session_def load_settings_def load_json_file_def write_json_def
        fresh_store_def)
qed

lemma category_picks:
  "random_games STRATEGY_1_GAMES 4 always_one = Inr (replicate 4 ''n_back'', always_one)"
proof -
  have "random_games STRATEGY_1_GAMES 4 always_one =
     Inr (replicate 4 (STRATEGY_1_GAMES ! (1 mod length STRATEGY_1_GAMES)),
          (\<lambda>n. always_one (n + 4)))"
    by (rule random_games_const_prefix) (simp_all add: STRATEGY_1_GAMES_def always_one_def)
  moreover have "(\<lambda>n. always_one (n + 4)) = always_one" by (simp add: always_one_def)
  ultimately show ?thesis by (simp add: STRATEGY_1_GAMES_def)
qed

text \<open>
  Claim C8 as stated fails. A session of N = 10 challenges (the default, here ten picks of
  the first category) whose player extends at every decision is asked to decide after rounds
  10, 14 and 18, and not after round 20, a multiple of N, where challenges remain in the
  queue. And at the decision after round 10 of this category session the four challenges
  appended are four copies of the game just played, not the four picks from the category
  that the pending draws would give.
\<close>

theorem continuation_decision_counterexample:
  "fst (get_game_for_session fresh_store ''random'' ''strategy1'' ALL_GAMES STRATEGY_1_GAMES
          STRATEGY_2_GAMES zeros_then_ones) = Inr (replicate 10 ''digit_span'', always_one) \<and>
   decision_rounds
     (session_rounds (replicate 10 ''digit_span'') 0 ALL_GAMES STRATEGY_1_GAMES STRATEGY_2_GAMES
        yes_at_every_prompt always_one) = [10, 14, 18] \<and>
   session_rounds (replicate 10 ''digit_span'') 0 ALL_GAMES STRATEGY_1_GAMES STRATEGY_2_GAMES
        yes_at_every_prompt always_one ! 19 = (20, AnyKey) \<and>
   handle_session_continuation [] 10 ''digit_span'' ALL_GAMES STRATEGY_1_GAMES STRATEGY_2_GAMES
        [Key 121] always_one
     = (SessionComplete, Some (Inr (True, replicate 4 ''digit_span'', False), always_one)) \<and>
   random_games STRATEGY_1_GAMES 4 always_one = Inr (replicate 4 ''n_back'', always_one) \<and>
   replicate 4 ''digit_span'' \<noteq> replicate 4 ''n_back''"
proof -
  have h: "handle_session_continuation [] 10 ''digit_span'' ALL_GAMES STRATEGY_1_GAMES
        STRATEGY_2_GAMES [Key 121] always_one
     = (SessionComplete, Some (Inr (True, replicate 4 ''digit_span'', False), always_one))"
    by (simp add: handle_session_continuation_def session_type_of_def ALL_GAMES_def
        STRATEGY_1_GAMES_def more_challenges_def Let_def)
  have ne: "replicate 4 ''digit_span'' \<noteq> replicate 4 ''n_back''"
    by (simp add: four_games)
  show ?thesis
    unfolding single_session_trace
    using category_session_queue h category_picks ne
    by (simp add: decision_rounds_def)
qed

section \<open>The input loops return\<close>

text \<open>
  The loops wait while no key arrives; each of them returns at the latest when the wait is
  interrupted.
\<close>

lemma input_loop_returns:
  "Interrupt \<in> set es \<Longrightarrow> \<exists>x. input_loop expected config ui fb es = Some x"
proof (induction es arbitrary: ui fb)
  case Nil
  then show ?case by simp
next
  case (Cons e es)
  show ?case
  proof (cases e)
    case Interrupt
    then show ?thesis by simp
  next
    case (Key k)
    then have "Interrupt \<in> set es" using Cons.prems by simp
    then have ih: "\<exists>x. input_loop expected config ui' fb' es = Some x" for ui' fb'
      by (rule Cons.IH)
    show ?thesis unfolding Key input_loop.simps Let_def
      using ih by (simp only: split: if_splits) blast
  qed
qed

lemma select_loop_returns:
  "Interrupt \<in> set es \<Longrightarrow> \<exists>x. select_loop pattern config elapsed cur sel es = Some x"
proof (induction es arbitrary: cur sel)
  case Nil
  then show ?case by simp
next
  case (Cons e es)
  show ?case
  proof (cases e)
    case Interrupt
    then show ?thesis by auto
  next
    case (Key k)
    then have "Interrupt \<in> set es" using Cons.prems by simp
    then have ih: "\<exists>x. select_loop pattern config elapsed cur' sel' es = Some x" for cur' sel'
      by (rule Cons.IH)
    show ?thesis unfolding Key select_loop.simps
      using ih by (simp only: split: if_splits) blast
  qed
qed

lemma decision_loop_returns:
  "Interrupt \<in> set es \<Longrightarrow>
     \<exists>x. decision_loop queue st current_game all_games s1 s2 es r = Some x"
proof (induction es)
  case Nil
  then show ?case by simp
next
  case (Cons e es)
  show ?case
  proof (cases e)
    case Interrupt
    then show ?thesis by simp
  next
    case (Key k)
    then have "Interrupt \<in> set es" using Cons.prems by simp
    then have ih: "\<exists>x. decision_loop queue st current_game all_games s1 s2 es r = Some x"
      by (rule Cons.IH)
    show ?thesis unfolding Key
      using ih by (auto split: sum.splits)
  qed
qed

end
